theory Spec2Isabelle
  imports Main "HOL-Library.Word"
begin

unbundle bit_operations_syntax

section \<open>JavaScript strings\<close>

text \<open>
  A JavaScript string is a sequence of UTF-16 code units; \<open>length\<close> counts code units and
  \<open>charCodeAt\<close> reads one. A string literal of the source is written \<open>js ''...''\<close>.
\<close>

type_synonym js_char = "16 word"
type_synonym js_string = "js_char list"

definition js :: "string \<Rightarrow> js_string" where
  "js s = map (\<lambda>c. of_nat (of_char c)) s"

text \<open>\<open>s.startsWith(p)\<close> and \<open>s.includes(p)\<close>.\<close>

fun startsWith :: "js_string \<Rightarrow> js_string \<Rightarrow> bool" where
  "startsWith s [] = True"
| "startsWith [] (p # ps) = False"
| "startsWith (c # cs) (p # ps) = (c = p \<and> startsWith cs ps)"

fun js_includes :: "js_string \<Rightarrow> js_string \<Rightarrow> bool" where
  "js_includes [] p = (p = [])"
| "js_includes (c # cs) p = (startsWith (c # cs) p \<or> js_includes cs p)"

section \<open>The content fingerprint\<close>

text \<open>
  \<open>generateContentHash\<close> (newsService.ts, lines 374-383):
  \<^verbatim>\<open>
    let hash = 0
    for (let i = 0; i < content.length; i++) {
      const char = content.charCodeAt(i)
      hash = ((hash << 5) - hash) + char
      hash = hash & hash // Convert to 32-bit integer
    }
    return hash.toString()
  \<close>
  \<open>hash\<close> is a JavaScript number. The shift and the bitwise and convert their operands
  with ToInt32 and give a signed 32-bit result; the subtraction and the addition between
  them are ordinary number arithmetic, exact here since every intermediate value is far
  below \<open>2^53\<close> in absolute value. Numbers are modelled as \<open>int\<close>, ToInt32 as the round
  trip through \<open>32 word\<close>.
\<close>

definition toInt32 :: "int \<Rightarrow> 32 word" where
  "toInt32 x = word_of_int x"

definition shiftLeft :: "int \<Rightarrow> nat \<Rightarrow> int" where
  "shiftLeft x n = sint (push_bit n (toInt32 x))"

definition bitAnd :: "int \<Rightarrow> int \<Rightarrow> int" where
  "bitAnd x y = sint (toInt32 x AND toInt32 y)"

definition charCode :: "js_char \<Rightarrow> int" where
  "charCode c = uint c"

definition hash_step :: "int \<Rightarrow> js_char \<Rightarrow> int" where
  "hash_step hash c =
     (let char = charCode c;
          hash1 = (shiftLeft hash 5 - hash) + char
      in bitAnd hash1 hash1)"

fun hash_loop :: "int \<Rightarrow> js_string \<Rightarrow> int" where
  "hash_loop hash [] = hash"
| "hash_loop hash (c # cs) = hash_loop (hash_step hash c) cs"

text \<open>\<open>Number.prototype.toString()\<close> on an integer: its decimal digits, with a leading minus.\<close>

definition digit_char :: "nat \<Rightarrow> js_char" where
  "digit_char d = of_nat (48 + d)"

fun nat_digits :: "nat \<Rightarrow> js_string" where
  "nat_digits n = (if n < 10 then [digit_char n] else nat_digits (n div 10) @ [digit_char (n mod 10)])"

definition int_toString :: "int \<Rightarrow> js_string" where
  "int_toString i = (if i < 0 then 45 # nat_digits (nat (- i)) else nat_digits (nat i))"

definition generateContentHash :: "js_string \<Rightarrow> js_string" where
  "generateContentHash content = int_toString (hash_loop 0 content)"

subsection \<open>The hash as the specification words it\<close>

text \<open>
  The specification's reference: \<open>hash = (hash*31 + charCode) mod 2^32\<close>, left to right from 0,
  reduced to a signed 32-bit integer at each step, rendered as a decimal string, over the
  concatenation \<open>title + description\<close>.
\<close>

definition signed32 :: "int \<Rightarrow> int" where
  "signed32 v = (if v < 2 ^ 31 then v else v - 2 ^ 32)"

definition spec_step :: "int \<Rightarrow> js_char \<Rightarrow> int" where
  "spec_step hash c = signed32 ((hash * 31 + uint c) mod 2 ^ 32)"

definition spec_fingerprint :: "js_string \<Rightarrow> js_string \<Rightarrow> js_string" where
  "spec_fingerprint title description = int_toString (foldl spec_step 0 (title @ description))"

section \<open>The feed parser\<close>

text \<open>
  \<open>content.split('\n')\<close>: the lines between line feeds; the empty string gives one empty
  line.
\<close>

fun split_on :: "js_char \<Rightarrow> js_string \<Rightarrow> js_string list" where
  "split_on d [] = [[]]"
| "split_on d (c # cs) =
     (if c = d then [] # split_on d cs
      else (case split_on d cs of [] \<Rightarrow> [[c]] | l # ls \<Rightarrow> (c # l) # ls))"

definition split_lines :: "js_string \<Rightarrow> js_string list" where
  "split_lines s = split_on 10 s"

text \<open>
  \<open>line.replace(/<[^>]*>/g, '')\<close>: scanning from the left, a \<open><\<close> that has a \<open>>\<close> somewhere
  after it is removed together with everything up to the first such \<open>>\<close>; a \<open><\<close> with no
  \<open>>\<close> after it stays.
\<close>

function strip_tags :: "js_string \<Rightarrow> js_string" where
  "strip_tags [] = []"
| "strip_tags (c # cs) =
     (if c = 60 \<and> 62 \<in> set cs then strip_tags (tl (dropWhile (\<lambda>x. x \<noteq> 62) cs))
      else c # strip_tags cs)"
  by pat_completeness auto
termination
proof (relation "measure length")
  show "wf (measure length)" by simp
next
  fix c :: js_char and cs :: js_string
  have "length (tl (dropWhile (\<lambda>x. x \<noteq> 62) cs)) \<le> length cs"
    using length_dropWhile_le [of "\<lambda>x. x \<noteq> 62" cs] by simp
  then show "(tl (dropWhile (\<lambda>x. x \<noteq> 62) cs), c # cs) \<in> measure length" by simp
next
  fix c :: js_char and cs :: js_string
  show "(cs, c # cs) \<in> measure length" by simp
qed

text \<open>
  \<open>String.prototype.trim\<close> removes the WhiteSpace and LineTerminator code units of
  ECMAScript from both ends: U+0009 to U+000D, U+0020, U+00A0, U+1680, U+2000 to U+200A,
  U+2028, U+2029, U+202F, U+205F, U+3000 and U+FEFF.
\<close>

definition is_js_space :: "js_char \<Rightarrow> bool" where
  "is_js_space c =
     ((9 \<le> c \<and> c \<le> 13) \<or> c = 32 \<or> c = 160 \<or> c = 5760 \<or> (8192 \<le> c \<and> c \<le> 8202)
      \<or> c = 8232 \<or> c = 8233 \<or> c = 8239 \<or> c = 8287 \<or> c = 12288 \<or> c = 65279)"

definition trim :: "js_string \<Rightarrow> js_string" where
  "trim s = rev (dropWhile is_js_space (rev (dropWhile is_js_space s)))"

text \<open>
  The built-ins of the JavaScript runtime that the service calls and this theory does not
  define are parameters:
  \<^item> \<open>date_toISOString s\<close> is \<open>new Date(s).toISOString()\<close>, which throws a RangeError on a
    string that is no date (\<open>None\<close>);
  \<^item> \<open>now_toISOString\<close> is \<open>new Date().toISOString()\<close>;
  \<^item> \<open>toLowerCase s\<close> is \<open>s.toLowerCase()\<close>;
  \<^item> \<open>new_URL r base\<close> is \<open>new URL(r, base).toString()\<close>, which throws a TypeError when
    the reference does not resolve (\<open>None\<close>);
  \<^item> \<open>number_gt_zero s\<close> is \<open>Number(s) > 0\<close>;
  \<^item> \<open>fresh_suffix n\<close> is the text \<open>${Date.now()}_${Math.random().toString(36).substr(2, 9)}\<close>
    that ends a generated id, as drawn when \<open>n\<close> backend calls have been made.
\<close>

record runtime =
  date_toISOString :: "js_string \<Rightarrow> js_string option"
  now_toISOString :: js_string
  toLowerCase :: "js_string \<Rightarrow> js_string"
  new_URL :: "js_string \<Rightarrow> js_string \<Rightarrow> js_string option"
  number_gt_zero :: "js_string \<Rightarrow> bool"
  fresh_suffix :: "nat \<Rightarrow> js_string"

text \<open>
  \<open>currentArticle: Partial<Article>\<close>, of which the parser sets four fields; a field not set
  is \<open>undefined\<close> (\<open>None\<close>).
\<close>

record partial_article =
  cur_title :: "js_string option"
  cur_description :: "js_string option"
  cur_url :: "js_string option"
  cur_publishedAt :: "js_string option"

definition empty_partial :: partial_article where
  "empty_partial =
     \<lparr>cur_title = None, cur_description = None, cur_url = None, cur_publishedAt = None\<rparr>"

text \<open>
  A parsed article. Of the object pushed by \<open>parseRSSContent\<close> the record keeps the fields
  that \<open>refreshSourceArticles\<close> reads; the others are the temporary id and the creation time,
  and constants (\<open>userId\<close>, \<open>sourceId\<close> and \<open>contentHash\<close> empty, \<open>category\<close> general, both flags
  false).
\<close>

record article =
  title :: js_string
  description :: js_string
  content :: js_string
  url :: js_string
  imageUrl :: js_string
  publishedAt :: js_string

text \<open>The four \<open>if\<close> statements of the loop body (lines 316-344), in order.\<close>

definition set_title :: "js_string \<Rightarrow> partial_article \<Rightarrow> partial_article" where
  "set_title line cur =
     (if js_includes line (js ''<title>'') \<and> \<not> js_includes line (js ''<![CDATA['') then
        (let t = trim (strip_tags line) in
         if t \<noteq> [] \<and> t \<noteq> js ''RSS'' \<and> length t > 10
         then cur\<lparr>cur_title := Some t\<rparr> else cur)
      else cur)"

definition set_description :: "js_string \<Rightarrow> partial_article \<Rightarrow> partial_article" where
  "set_description line cur =
     (if js_includes line (js ''<description>'') \<or> js_includes line (js ''<summary>'') then
        (let d = trim (strip_tags line) in
         if d \<noteq> [] \<and> length d > 20
         then cur\<lparr>cur_description := Some (take 300 d)\<rparr> else cur)
      else cur)"

definition set_url :: "js_string \<Rightarrow> partial_article \<Rightarrow> partial_article" where
  "set_url line cur =
     (if js_includes line (js ''<link>'') \<and> \<not> js_includes line (js ''</link>'') then
        (let u = trim (strip_tags line) in
         if startsWith u (js ''http'') then cur\<lparr>cur_url := Some u\<rparr> else cur)
      else cur)"

definition set_publishedAt :: "runtime \<Rightarrow> js_string \<Rightarrow> partial_article \<Rightarrow> partial_article" where
  "set_publishedAt rt line cur =
     (if js_includes line (js ''<pubDate>'') \<or> js_includes line (js ''<published>'') then
        (let dateStr = trim (strip_tags line) in
         case date_toISOString rt dateStr of
           Some d \<Rightarrow> cur\<lparr>cur_publishedAt := Some d\<rparr>
         | None \<Rightarrow> cur\<lparr>cur_publishedAt := Some (now_toISOString rt)\<rparr>)
      else cur)"

text \<open>
  Lines 347-365: with a truthy title and url and fewer than 20 articles so far, the article
  is pushed and \<open>currentArticle\<close> reset. A string is truthy when it is not empty;
  \<open>x || d\<close> is \<open>d\<close> when \<open>x\<close> is undefined or empty.
\<close>

definition or_str :: "js_string \<Rightarrow> js_string \<Rightarrow> js_string" where
  "or_str x d = (if x = [] then d else x)"

definition or_else :: "js_string option \<Rightarrow> js_string \<Rightarrow> js_string" where
  "or_else x d = (case x of None \<Rightarrow> d | Some s \<Rightarrow> or_str s d)"

definition push_article ::
  "runtime \<Rightarrow> partial_article \<Rightarrow> article list \<Rightarrow> partial_article \<times> article list" where
  "push_article rt cur articles =
     (case (cur_title cur, cur_url cur) of
        (Some t, Some u) \<Rightarrow>
          if t \<noteq> [] \<and> u \<noteq> [] \<and> length articles < 20 then
            (empty_partial,
             articles @ [\<lparr>title = t, description = or_else (cur_description cur) [],
                          content = [], url = u, imageUrl = [],
                          publishedAt = or_else (cur_publishedAt cur) (now_toISOString rt)\<rparr>])
          else (cur, articles)
      | _ \<Rightarrow> (cur, articles))"

definition parse_line ::
  "runtime \<Rightarrow> js_string \<Rightarrow> partial_article \<times> article list \<Rightarrow> partial_article \<times> article list" where
  "parse_line rt line st =
     push_article rt
       (set_publishedAt rt line (set_url line (set_description line (set_title line (fst st)))))
       (snd st)"

fun parse_lines ::
  "runtime \<Rightarrow> js_string list \<Rightarrow> partial_article \<times> article list \<Rightarrow> partial_article \<times> article list" where
  "parse_lines rt [] st = st"
| "parse_lines rt (line # lines) st = parse_lines rt lines (parse_line rt line st)"

text \<open>
  \<open>parseRSSContent(content, sourceUrl)\<close>, the content named \<open>rssContent\<close> as at the call.
  Nothing in the loop throws outside the inner \<open>try\<close> around the date, so the outer \<open>catch\<close>
  is never entered; \<open>sourceUrl\<close> is not used.
\<close>

definition parseRSSContent :: "runtime \<Rightarrow> js_string \<Rightarrow> js_string \<Rightarrow> article list" where
  "parseRSSContent rt rssContent sourceUrl =
     snd (parse_lines rt (split_lines rssContent) (empty_partial, []))"

section \<open>The backend\<close>

text \<open>
  Authentication, the document store and the scraper are a hosted service behind the
  \<open>blink\<close> client; none of it is in the repository. A call to it returns a value or throws.
  The \<open>world\<close> holds the two collections of the store and counts the backend calls made so
  far; the \<open>backend\<close> says, for the call made when \<open>n\<close> calls have gone before, what
  \<open>auth.me()\<close>, \<open>data.extractFromUrl(url)\<close> and \<open>data.scrape(url)\<close> answer and whether a call
  to the store throws. A store call that does not throw lists the rows that match a
  \<open>where\<close> clause, appends the created row, or patches the rows with the given id; one
  that throws leaves the store as it was. So the store reflects every write before the next
  read, and the backend may fail at any call.
\<close>

datatype error = Error js_string

type_synonym 'a result = "error + 'a"

record user =
  user_id :: js_string

record link =
  link_href :: "js_string option"
  link_text :: "js_string option"

record source_row =
  src_id :: js_string
  src_userId :: js_string
  src_name :: js_string
  src_url :: js_string
  src_rssUrl :: "js_string option"
  src_category :: js_string
  src_isActive :: js_string
  src_createdAt :: js_string
  src_updatedAt :: js_string

record article_row =
  art_id :: js_string
  art_userId :: js_string
  art_sourceId :: js_string
  art_title :: js_string
  art_description :: js_string
  art_content :: js_string
  art_url :: js_string
  art_imageUrl :: js_string
  art_publishedAt :: js_string
  art_category :: js_string
  art_isBookmarked :: js_string
  art_isRead :: js_string
  art_contentHash :: js_string
  art_createdAt :: js_string

record world =
  calls :: nat
  newsSources :: "source_row list"
  articles :: "article_row list"

record backend =
  auth_me :: "nat \<Rightarrow> user option result"
  data_extractFromUrl :: "nat \<Rightarrow> js_string \<Rightarrow> js_string result"
  data_scrape :: "nat \<Rightarrow> js_string \<Rightarrow> link list result"
  db_fault :: "nat \<Rightarrow> error option"

definition tick :: "world \<Rightarrow> world" where
  "tick w = w\<lparr>calls := Suc (calls w)\<rparr>"

definition call_auth_me :: "backend \<Rightarrow> world \<Rightarrow> user option result \<times> world" where
  "call_auth_me b w = (auth_me b (calls w), tick w)"

definition call_extractFromUrl :: "backend \<Rightarrow> js_string \<Rightarrow> world \<Rightarrow> js_string result \<times> world" where
  "call_extractFromUrl b u w = (data_extractFromUrl b (calls w) u, tick w)"

definition call_scrape :: "backend \<Rightarrow> js_string \<Rightarrow> world \<Rightarrow> link list result \<times> world" where
  "call_scrape b u w = (data_scrape b (calls w) u, tick w)"

definition db_newsSources_list ::
  "backend \<Rightarrow> (source_row \<Rightarrow> bool) \<Rightarrow> world \<Rightarrow> source_row list result \<times> world" where
  "db_newsSources_list b wh w =
     (case db_fault b (calls w) of
        Some e \<Rightarrow> (Inl e, tick w)
      | None \<Rightarrow> (Inr (filter wh (newsSources w)), tick w))"

definition db_newsSources_create :: "backend \<Rightarrow> source_row \<Rightarrow> world \<Rightarrow> unit result \<times> world" where
  "db_newsSources_create b row w =
     (case db_fault b (calls w) of
        Some e \<Rightarrow> (Inl e, tick w)
      | None \<Rightarrow> (Inr (), tick (w\<lparr>newsSources := newsSources w @ [row]\<rparr>)))"

definition db_articles_list ::
  "backend \<Rightarrow> (article_row \<Rightarrow> bool) \<Rightarrow> world \<Rightarrow> article_row list result \<times> world" where
  "db_articles_list b wh w =
     (case db_fault b (calls w) of
        Some e \<Rightarrow> (Inl e, tick w)
      | None \<Rightarrow> (Inr (filter wh (articles w)), tick w))"

definition db_articles_create :: "backend \<Rightarrow> article_row \<Rightarrow> world \<Rightarrow> unit result \<times> world" where
  "db_articles_create b row w =
     (case db_fault b (calls w) of
        Some e \<Rightarrow> (Inl e, tick w)
      | None \<Rightarrow> (Inr (), tick (w\<lparr>articles := articles w @ [row]\<rparr>)))"

text \<open>
  The patch of an update names the fields it sets. The service patches two fields only,
  the bookmark flag and the read flag.
\<close>

datatype article_field = IsBookmarked | IsRead

fun set_field :: "article_field \<times> js_string \<Rightarrow> article_row \<Rightarrow> article_row" where
  "set_field (IsBookmarked, v) r = r\<lparr>art_isBookmarked := v\<rparr>"
| "set_field (IsRead, v) r = r\<lparr>art_isRead := v\<rparr>"

definition apply_patch :: "(article_field \<times> js_string) list \<Rightarrow> article_row \<Rightarrow> article_row" where
  "apply_patch patch r = fold set_field patch r"

definition db_articles_update ::
  "backend \<Rightarrow> js_string \<Rightarrow> (article_field \<times> js_string) list \<Rightarrow> world \<Rightarrow> unit result \<times> world" where
  "db_articles_update b i patch w =
     (case db_fault b (calls w) of
        Some e \<Rightarrow> (Inl e, tick w)
      | None \<Rightarrow>
          (Inr (),
           tick (w\<lparr>articles := map (\<lambda>r. if art_id r = i then apply_patch patch r else r) (articles w)\<rparr>)))"

section \<open>The news service\<close>

subsection \<open>fetchRSSFeed\<close>

text \<open>Lines 6-18: any error of the fetch is caught and gives the empty list.\<close>

definition fetchRSSFeed ::
  "backend \<Rightarrow> runtime \<Rightarrow> js_string \<Rightarrow> world \<Rightarrow> article list result \<times> world" where
  "fetchRSSFeed b rt u w =
     (case call_extractFromUrl b u w of
        (Inl e, w1) \<Rightarrow> (Inr [], w1)
      | (Inr rssContent, w1) \<Rightarrow> (Inr (parseRSSContent rt rssContent u), w1))"

subsection \<open>discoverRSSFeed\<close>

text \<open>
  Lines 26-32: the predicate of \<open>links.find\<close>. \<open>link.href?.includes(k)\<close> is undefined, hence
  falsy, on a link with no href. The href is searched as written for three keywords, the
  lower-cased text for two.
\<close>

definition opt_includes :: "js_string option \<Rightarrow> js_string \<Rightarrow> bool" where
  "opt_includes x k = (case x of None \<Rightarrow> False | Some s \<Rightarrow> js_includes s k)"

definition is_rss_link :: "runtime \<Rightarrow> link \<Rightarrow> bool" where
  "is_rss_link rt l =
     (opt_includes (link_href l) (js ''rss'') \<or>
      opt_includes (link_href l) (js ''feed'') \<or>
      opt_includes (link_href l) (js ''atom'') \<or>
      opt_includes (map_option (toLowerCase rt) (link_text l)) (js ''rss'') \<or>
      opt_includes (map_option (toLowerCase rt) (link_text l)) (js ''feed''))"

definition commonPaths :: "js_string list" where
  "commonPaths = [js ''/rss'', js ''/feed'', js ''/rss.xml'', js ''/feed.xml'', js ''/atom.xml'']"

text \<open>
  Lines 42-50: the loop over the common paths. Resolving the path and fetching it are both
  inside the inner \<open>try\<close>; either failing goes on to the next path.
\<close>

fun probe_paths ::
  "backend \<Rightarrow> runtime \<Rightarrow> js_string \<Rightarrow> js_string list \<Rightarrow> world \<Rightarrow> js_string option result \<times> world" where
  "probe_paths b rt websiteUrl [] w = (Inr None, w)"
| "probe_paths b rt websiteUrl (path # paths) w =
     (case new_URL rt path websiteUrl of
        None \<Rightarrow> probe_paths b rt websiteUrl paths w
      | Some testUrl \<Rightarrow>
          (case call_extractFromUrl b testUrl w of
             (Inl e, w1) \<Rightarrow> probe_paths b rt websiteUrl paths w1
           | (Inr page, w1) \<Rightarrow> (Inr (Some testUrl), w1)))"

text \<open>
  Lines 22-52, the body of the outer \<open>try\<close>. \<open>rssLink?.href\<close> is falsy when no link was found,
  when the link found has no href and when its href is empty; a throw of \<open>new URL\<close> at line
  36 is outside the inner \<open>try\<close>.
\<close>

definition discoverRSSFeed_try ::
  "backend \<Rightarrow> runtime \<Rightarrow> js_string \<Rightarrow> world \<Rightarrow> js_string option result \<times> world" where
  "discoverRSSFeed_try b rt websiteUrl w =
     (case call_scrape b websiteUrl w of
        (Inl e, w1) \<Rightarrow> (Inl e, w1)
      | (Inr links, w1) \<Rightarrow>
          (case Option.bind (find (is_rss_link rt) links) link_href of
             None \<Rightarrow> probe_paths b rt websiteUrl commonPaths w1
           | Some h \<Rightarrow>
               if h = [] then probe_paths b rt websiteUrl commonPaths w1
               else (case new_URL rt h websiteUrl of
                       None \<Rightarrow> (Inl (Error (js ''TypeError: Invalid URL'')), w1)
                     | Some u \<Rightarrow> (Inr (Some u), w1))))"

text \<open>Lines 53-56: the outer \<open>catch\<close> logs the error and returns null.\<close>

definition discoverRSSFeed ::
  "backend \<Rightarrow> runtime \<Rightarrow> js_string \<Rightarrow> world \<Rightarrow> js_string option result \<times> world" where
  "discoverRSSFeed b rt websiteUrl w =
     (case discoverRSSFeed_try b rt websiteUrl w of
        (Inl e, w1) \<Rightarrow> (Inr None, w1)
      | (Inr r, w1) \<Rightarrow> (Inr r, w1))"

subsection \<open>refreshSourceArticles\<close>

text \<open>
  Lines 192-220: the loop over the fetched articles. A throw of the store leaves the loop
  and the function's \<open>try\<close>.
\<close>

fun save_new_articles ::
  "backend \<Rightarrow> runtime \<Rightarrow> user \<Rightarrow> source_row \<Rightarrow> article list \<Rightarrow> world \<Rightarrow> unit result \<times> world" where
  "save_new_articles b rt usr source [] w = (Inr (), w)"
| "save_new_articles b rt usr source (a # newArticles) w =
     (let contentHash = generateContentHash (title a @ description a) in
      case db_articles_list b
             (\<lambda>r. art_userId r = user_id usr \<and> art_contentHash r = contentHash) w of
        (Inl e, w1) \<Rightarrow> (Inl e, w1)
      | (Inr existing, w1) \<Rightarrow>
          if length existing = 0 then
            (case db_articles_create b
                    \<lparr>art_id = js ''article_'' @ fresh_suffix rt (calls w1),
                     art_userId = user_id usr,
                     art_sourceId = src_id source,
                     art_title = title a,
                     art_description = or_str (description a) [],
                     art_content = or_str (content a) [],
                     art_url = url a,
                     art_imageUrl = or_str (imageUrl a) [],
                     art_publishedAt = or_str (publishedAt a) (now_toISOString rt),
                     art_category = src_category source,
                     art_isBookmarked = js ''0'',
                     art_isRead = js ''0'',
                     art_contentHash = contentHash,
                     art_createdAt = now_toISOString rt\<rparr> w1 of
               (Inl e, w2) \<Rightarrow> (Inl e, w2)
             | (Inr u, w2) \<Rightarrow> save_new_articles b rt usr source newArticles w2)
          else save_new_articles b rt usr source newArticles w1)"

text \<open>
  Lines 177-220, the body of the \<open>try\<close>. \<open>!source.rssUrl\<close> holds for a missing and for an
  empty url.
\<close>

definition refreshSourceArticles_try ::
  "backend \<Rightarrow> runtime \<Rightarrow> js_string \<Rightarrow> world \<Rightarrow> unit result \<times> world" where
  "refreshSourceArticles_try b rt sourceId w =
     (case call_auth_me b w of
        (Inl e, w1) \<Rightarrow> (Inl e, w1)
      | (Inr None, w1) \<Rightarrow> (Inr (), w1)
      | (Inr (Some usr), w1) \<Rightarrow>
          (case db_newsSources_list b
                  (\<lambda>s. src_id s = sourceId \<and> src_userId s = user_id usr) w1 of
             (Inl e, w2) \<Rightarrow> (Inl e, w2)
           | (Inr [], w2) \<Rightarrow> (Inr (), w2)
           | (Inr (source # others), w2) \<Rightarrow>
               (case src_rssUrl source of
                  None \<Rightarrow> (Inr (), w2)
                | Some rssUrl \<Rightarrow>
                    if rssUrl = [] then (Inr (), w2)
                    else (case fetchRSSFeed b rt rssUrl w2 of
                            (Inl e, w3) \<Rightarrow> (Inl e, w3)
                          | (Inr newArticles, w3) \<Rightarrow>
                              save_new_articles b rt usr source newArticles w3))))"

text \<open>Lines 221-223: the \<open>catch\<close> logs the error; the function returns.\<close>

definition refreshSourceArticles ::
  "backend \<Rightarrow> runtime \<Rightarrow> js_string \<Rightarrow> world \<Rightarrow> unit result \<times> world" where
  "refreshSourceArticles b rt sourceId w =
     (case refreshSourceArticles_try b rt sourceId w of
        (Inl e, w1) \<Rightarrow> (Inr (), w1)
      | (Inr u, w1) \<Rightarrow> (Inr u, w1))"

text \<open>
  The caller's refresh of all sources awaits one \<open>refreshSourceArticles\<close> after the other;
  here each call of the sequence comes with the runtime it meets.
\<close>

fun refresh_each :: "backend \<Rightarrow> (runtime \<times> js_string) list \<Rightarrow> world \<Rightarrow> world" where
  "refresh_each b [] w = w"
| "refresh_each b ((rt, sourceId) # rest) w =
     refresh_each b rest (snd (refreshSourceArticles b rt sourceId w))"

subsection \<open>addNewsSource\<close>

text \<open>
  Lines 62-100, the body of the \<open>try\<close>. \<open>!rssUrl\<close> holds for null and for the empty string.
  The object returned carries the fields of the created row, with \<open>isActive\<close> the boolean
  \<open>true\<close> where the row holds \<open>"1"\<close>; the row stands for it here.
\<close>

definition addNewsSource_try ::
  "backend \<Rightarrow> runtime \<Rightarrow> js_string \<Rightarrow> js_string \<Rightarrow> js_string \<Rightarrow> world \<Rightarrow> source_row result \<times> world" where
  "addNewsSource_try b rt name websiteUrl category w =
     (case call_auth_me b w of
        (Inl e, w1) \<Rightarrow> (Inl e, w1)
      | (Inr None, w1) \<Rightarrow> (Inl (Error (js ''User not authenticated'')), w1)
      | (Inr (Some usr), w1) \<Rightarrow>
          (case discoverRSSFeed b rt websiteUrl w1 of
             (Inl e, w2) \<Rightarrow> (Inl e, w2)
           | (Inr None, w2) \<Rightarrow>
               (Inl (Error (js ''Could not find RSS feed for this website'')), w2)
           | (Inr (Some rssUrl), w2) \<Rightarrow>
               if rssUrl = [] then
                 (Inl (Error (js ''Could not find RSS feed for this website'')), w2)
               else
                 (let row = \<lparr>src_id = js ''source_'' @ fresh_suffix rt (calls w2),
                             src_userId = user_id usr,
                             src_name = name,
                             src_url = websiteUrl,
                             src_rssUrl = Some rssUrl,
                             src_category = category,
                             src_isActive = js ''1'',
                             src_createdAt = now_toISOString rt,
                             src_updatedAt = now_toISOString rt\<rparr> in
                  case db_newsSources_create b row w2 of
                    (Inl e, w3) \<Rightarrow> (Inl e, w3)
                  | (Inr u, w3) \<Rightarrow>
                      (case refreshSourceArticles b rt (src_id row) w3 of
                         (Inl e, w4) \<Rightarrow> (Inl e, w4)
                       | (Inr u, w4) \<Rightarrow> (Inr row, w4)))))"

text \<open>Lines 101-104: the \<open>catch\<close> logs the error and throws it again.\<close>

definition addNewsSource ::
  "backend \<Rightarrow> runtime \<Rightarrow> js_string \<Rightarrow> js_string \<Rightarrow> js_string \<Rightarrow> world \<Rightarrow> source_row result \<times> world" where
  "addNewsSource b rt name websiteUrl category w =
     (case addNewsSource_try b rt name websiteUrl category w of
        (Inl e, w1) \<Rightarrow> (Inl e, w1)
      | (Inr r, w1) \<Rightarrow> (Inr r, w1))"

subsection \<open>toggleBookmark and markAsRead\<close>

text \<open>Lines 229-243, the body of the \<open>try\<close> of \<open>toggleBookmark\<close>.\<close>

definition toggleBookmark_try ::
  "backend \<Rightarrow> runtime \<Rightarrow> js_string \<Rightarrow> world \<Rightarrow> unit result \<times> world" where
  "toggleBookmark_try b rt articleId w =
     (case call_auth_me b w of
        (Inl e, w1) \<Rightarrow> (Inl e, w1)
      | (Inr None, w1) \<Rightarrow> (Inr (), w1)
      | (Inr (Some usr), w1) \<Rightarrow>
          (case db_articles_list b
                  (\<lambda>r. art_id r = articleId \<and> art_userId r = user_id usr) w1 of
             (Inl e, w2) \<Rightarrow> (Inl e, w2)
           | (Inr [], w2) \<Rightarrow> (Inr (), w2)
           | (Inr (a # others), w2) \<Rightarrow>
               (let newBookmarkStatus =
                      (if number_gt_zero rt (art_isBookmarked a) then js ''0'' else js ''1'')
                in db_articles_update b articleId [(IsBookmarked, newBookmarkStatus)] w2)))"

definition toggleBookmark ::
  "backend \<Rightarrow> runtime \<Rightarrow> js_string \<Rightarrow> world \<Rightarrow> unit result \<times> world" where
  "toggleBookmark b rt articleId w =
     (case toggleBookmark_try b rt articleId w of
        (Inl e, w1) \<Rightarrow> (Inr (), w1)
      | (Inr u, w1) \<Rightarrow> (Inr u, w1))"

text \<open>Lines 252-257, the body of the \<open>try\<close> of \<open>markAsRead\<close>: no look-up precedes the update.\<close>

definition markAsRead_try ::
  "backend \<Rightarrow> js_string \<Rightarrow> world \<Rightarrow> unit result \<times> world" where
  "markAsRead_try b articleId w =
     (case call_auth_me b w of
        (Inl e, w1) \<Rightarrow> (Inl e, w1)
      | (Inr None, w1) \<Rightarrow> (Inr (), w1)
      | (Inr (Some usr), w1) \<Rightarrow> db_articles_update b articleId [(IsRead, js ''1'')] w1)"

definition markAsRead ::
  "backend \<Rightarrow> js_string \<Rightarrow> world \<Rightarrow> unit result \<times> world" where
  "markAsRead b articleId w =
     (case markAsRead_try b articleId w of
        (Inl e, w1) \<Rightarrow> (Inr (), w1)
      | (Inr u, w1) \<Rightarrow> (Inr u, w1))"

section \<open>Predicates and examples of the statements\<close>

subsection \<open>The parser's invariant\<close>

text \<open>
  What the loop of \<open>parseRSSContent\<close> maintains: a title held by \<open>currentArticle\<close> is longer
  than 10 code units and is not \<open>RSS\<close>, a url held starts with \<open>http\<close>, and the same is true
  of the articles pushed, of which there are at most 20.
\<close>

definition cur_ok :: "partial_article \<Rightarrow> bool" where
  "cur_ok cur =
     ((case cur_title cur of None \<Rightarrow> True | Some t \<Rightarrow> 10 < length t \<and> t \<noteq> js ''RSS'') \<and>
      (case cur_url cur of None \<Rightarrow> True | Some u \<Rightarrow> startsWith u (js ''http'')))"

definition art_ok :: "article \<Rightarrow> bool" where
  "art_ok a = (10 < length (title a) \<and> title a \<noteq> js ''RSS'' \<and> startsWith (url a) (js ''http''))"

definition parse_inv :: "partial_article \<times> article list \<Rightarrow> bool" where
  "parse_inv st = (cur_ok (fst st) \<and> length (snd st) \<le> 20 \<and> list_all art_ok (snd st))"

subsection \<open>Example inputs\<close>

text \<open>
  A runtime to run the examples on: no string is a date, lower-casing maps the ASCII
  capitals, a reference that starts with a slash is appended to the base and any other
  is taken as absolute, a string of decimal digits is positive when one of them is not
  zero, and the suffix of a generated id is the decimal number of the call.
\<close>

definition ascii_lower :: "js_char \<Rightarrow> js_char" where
  "ascii_lower c = (if 65 \<le> c \<and> c \<le> 90 then c + 32 else c)"

definition example_runtime :: runtime where
  "example_runtime =
     \<lparr>date_toISOString = (\<lambda>s. None),
      now_toISOString = js ''2024-01-01T00:00:00.000Z'',
      toLowerCase = map ascii_lower,
      new_URL = (\<lambda>r base. Some (if startsWith r (js ''/'') then base @ r else r)),
      number_gt_zero =
        (\<lambda>s. s \<noteq> [] \<and> list_all (\<lambda>c. 48 \<le> c \<and> c \<le> 57) s \<and> \<not> list_all (\<lambda>c. c = 48) s),
      fresh_suffix = nat_digits\<rparr>"

text \<open>
  The feed of the specification's first scenario, and the same with the link on a line of
  its own and not closed.
\<close>

definition one_line_feed :: js_string where
  "one_line_feed = js ''<title>Example Article Title</title><link>http://x.com/a</link>''"

definition two_line_feed :: js_string where
  "two_line_feed = js ''<title>Example Article Title</title>'' @ [10] @ js ''<link>http://x.com/a''"

subsection \<open>Example backends and stores\<close>

text \<open>
  Two users, a store with nothing in it, and backends that never fail: one with nobody
  signed in, one with alice signed in, where every url fetches the two-line feed.
\<close>

definition alice :: user where
  "alice = \<lparr>user_id = js ''alice''\<rparr>"

definition bob :: user where
  "bob = \<lparr>user_id = js ''bob''\<rparr>"

definition empty_world :: world where
  "empty_world = \<lparr>calls = 0, newsSources = [], articles = []\<rparr>"

definition signed_out_backend :: backend where
  "signed_out_backend =
     \<lparr>auth_me = (\<lambda>n. Inr None),
      data_extractFromUrl = (\<lambda>n u. Inr two_line_feed),
      data_scrape = (\<lambda>n u. Inr []),
      db_fault = (\<lambda>n. None)\<rparr>"

definition alice_backend :: backend where
  "alice_backend =
     \<lparr>auth_me = (\<lambda>n. Inr (Some alice)),
      data_extractFromUrl = (\<lambda>n u. Inr two_line_feed),
      data_scrape = (\<lambda>n u. Inr []),
      db_fault = (\<lambda>n. None)\<rparr>"

text \<open>A site with no feed: it has no links, and no url under it can be fetched.\<close>

definition no_feed_backend :: backend where
  "no_feed_backend =
     \<lparr>auth_me = (\<lambda>n. Inr (Some alice)),
      data_extractFromUrl = (\<lambda>n u. Inl (Error (js ''404''))),
      data_scrape = (\<lambda>n u. Inr []),
      db_fault = (\<lambda>n. None)\<rparr>"

text \<open>A source of alice's whose feed url was never resolved, and a store that holds it.\<close>

definition source_without_feed :: source_row where
  "source_without_feed =
     \<lparr>src_id = js ''s1'', src_userId = js ''alice'', src_name = js ''Test'',
      src_url = js ''https://no-feed-site.example'', src_rssUrl = None,
      src_category = js ''general'', src_isActive = js ''1'',
      src_createdAt = js ''2024-01-01T00:00:00.000Z'',
      src_updatedAt = js ''2024-01-01T00:00:00.000Z''\<rparr>"

definition world_without_feed :: world where
  "world_without_feed = \<lparr>calls = 0, newsSources = [source_without_feed], articles = []\<rparr>"

subsection \<open>The store is left as it was\<close>

definition same_store :: "world \<Rightarrow> world \<Rightarrow> bool" where
  "same_store w w' = (newsSources w' = newsSources w \<and> articles w' = articles w)"

subsection \<open>Bookmark flags\<close>

text \<open>
  The flag the other way round, for the two values the service writes, and what a toggle
  of the article with id \<open>i\<close> is to do to a row of the store.
\<close>

definition flip_flag :: "js_string \<Rightarrow> js_string" where
  "flip_flag v = (if v = js ''1'' then js ''0'' else js ''1'')"

definition flip_bookmark :: "js_string \<Rightarrow> article_row \<Rightarrow> article_row" where
  "flip_bookmark i r =
     (if art_id r = i then r\<lparr>art_isBookmarked := flip_flag (art_isBookmarked r)\<rparr> else r)"

text \<open>
  An article of alice's and one of bob's, neither bookmarked nor read, and a store that
  holds both.
\<close>

definition alice_article :: article_row where
  "alice_article =
     \<lparr>art_id = js ''a1'', art_userId = js ''alice'', art_sourceId = js ''s1'',
      art_title = js ''Example Article Title'', art_description = [], art_content = [],
      art_url = js ''http://x.com/a'', art_imageUrl = [],
      art_publishedAt = js ''2024-01-01T00:00:00.000Z'', art_category = js ''general'',
      art_isBookmarked = js ''0'', art_isRead = js ''0'',
      art_contentHash = generateContentHash (js ''Example Article Title''),
      art_createdAt = js ''2024-01-01T00:00:00.000Z''\<rparr>"

definition bob_article :: article_row where
  "bob_article =
     \<lparr>art_id = js ''b1'', art_userId = js ''bob'', art_sourceId = js ''s9'',
      art_title = js ''Another Article Title'', art_description = [], art_content = [],
      art_url = js ''http://y.com/b'', art_imageUrl = [],
      art_publishedAt = js ''2024-01-01T00:00:00.000Z'', art_category = js ''general'',
      art_isBookmarked = js ''0'', art_isRead = js ''0'',
      art_contentHash = generateContentHash (js ''Another Article Title''),
      art_createdAt = js ''2024-01-01T00:00:00.000Z''\<rparr>"

definition world_two_readers :: world where
  "world_two_readers = \<lparr>calls = 0, newsSources = [], articles = [alice_article, bob_article]\<rparr>"

subsection \<open>Fingerprints in the store\<close>

text \<open>
  The fingerprint of a parsed article as the loop of \<open>refreshSourceArticles\<close> computes it,
  the fingerprints of the rows of a user in the order of the store, and the invariant:
  no two rows of the user carry the same fingerprint.
\<close>

definition fingerprint :: "article \<Rightarrow> js_string" where
  "fingerprint a = generateContentHash (title a @ description a)"

definition user_hashes :: "js_string \<Rightarrow> world \<Rightarrow> js_string list" where
  "user_hashes u w = map art_contentHash (filter (\<lambda>r. art_userId r = u) (articles w))"

definition no_duplicate_fingerprints :: "js_string \<Rightarrow> world \<Rightarrow> bool" where
  "no_duplicate_fingerprints u w = distinct (user_hashes u w)"

text \<open>
  A backend whose store never throws and whose session and pages do not change with time:
  the setting of the specification's two runs of ingestion on an unchanged feed.
\<close>

definition steady :: "backend \<Rightarrow> bool" where
  "steady b = ((\<forall>n. db_fault b n = None) \<and> (\<forall>n. auth_me b n = auth_me b 0) \<and>
               (\<forall>n. data_extractFromUrl b n = data_extractFromUrl b 0))"

text \<open>
  The row that the loop creates for a parsed article when \<open>n\<close> backend calls have been made
  (the object literal of lines 203-218), and the store after the list and the create of
  one round.
\<close>

definition created_row :: "runtime \<Rightarrow> user \<Rightarrow> source_row \<Rightarrow> article \<Rightarrow> nat \<Rightarrow> article_row" where
  "created_row rt usr source a n =
     \<lparr>art_id = js ''article_'' @ fresh_suffix rt n,
      art_userId = user_id usr,
      art_sourceId = src_id source,
      art_title = title a,
      art_description = or_str (description a) [],
      art_content = or_str (content a) [],
      art_url = url a,
      art_imageUrl = or_str (imageUrl a) [],
      art_publishedAt = or_str (publishedAt a) (now_toISOString rt),
      art_category = src_category source,
      art_isBookmarked = js ''0'',
      art_isRead = js ''0'',
      art_contentHash = fingerprint a,
      art_createdAt = now_toISOString rt\<rparr>"

definition add_row :: "article_row \<Rightarrow> world \<Rightarrow> world" where
  "add_row r w = w\<lparr>articles := articles w @ [r], calls := Suc (Suc (calls w))\<rparr>"

text \<open>
  What \<open>refreshSourceArticles\<close> settles before it fetches: the user, the source and the feed
  url it goes on with, or none when it returns early or the first store call throws; and
  the articles fetched from a url by the call made when \<open>n\<close> calls have gone before.
\<close>

definition refresh_plan :: "backend \<Rightarrow> js_string \<Rightarrow> world \<Rightarrow> (user \<times> source_row \<times> js_string) option" where
  "refresh_plan b sourceId w =
     (case auth_me b (calls w) of
        Inr (Some usr) \<Rightarrow>
          (case db_fault b (Suc (calls w)) of
             Some e \<Rightarrow> None
           | None \<Rightarrow>
               (case filter (\<lambda>s. src_id s = sourceId \<and> src_userId s = user_id usr) (newsSources w) of
                  [] \<Rightarrow> None
                | source # others \<Rightarrow>
                    (case src_rssUrl source of
                       None \<Rightarrow> None
                     | Some rssUrl \<Rightarrow> if rssUrl = [] then None else Some (usr, source, rssUrl))))
      | _ \<Rightarrow> None)"

definition fetched :: "backend \<Rightarrow> runtime \<Rightarrow> js_string \<Rightarrow> nat \<Rightarrow> article list" where
  "fetched b rt rssUrl n =
     (case data_extractFromUrl b n rssUrl of
        Inl e \<Rightarrow> []
      | Inr rssContent \<Rightarrow> parseRSSContent rt rssContent rssUrl)"

text \<open>Two states of the parser's loop that differ in publication dates at most.\<close>

definition same_text :: "partial_article \<times> article list \<Rightarrow> partial_article \<times> article list \<Rightarrow> bool" where
  "same_text st st' =
     (cur_title (fst st) = cur_title (fst st') \<and>
      cur_description (fst st) = cur_description (fst st') \<and>
      cur_url (fst st) = cur_url (fst st') \<and>
      map fingerprint (snd st) = map fingerprint (snd st'))"

text \<open>
  For a store that does not throw: the articles of a batch that the loop persists, those
  whose fingerprint is neither among the fingerprints \<open>seen\<close> for the user nor that of an
  earlier article of the batch; what identifies a row and a parsed article in the
  comparison of two runs (the generated id and the times differ from run to run); and the
  rows that the loop adds to the store.
\<close>

fun new_candidates :: "js_string list \<Rightarrow> article list \<Rightarrow> article list" where
  "new_candidates seen [] = []"
| "new_candidates seen (a # as) =
     (if fingerprint a \<in> set seen then new_candidates seen as
      else a # new_candidates (seen @ [fingerprint a]) as)"

definition row_key :: "article_row \<Rightarrow> js_string \<times> js_string \<times> js_string \<times> js_string" where
  "row_key r = (art_userId r, art_contentHash r, art_title r, art_url r)"

definition candidate_key :: "user \<Rightarrow> article \<Rightarrow> js_string \<times> js_string \<times> js_string \<times> js_string" where
  "candidate_key usr a = (user_id usr, fingerprint a, title a, url a)"

definition persisted ::
  "backend \<Rightarrow> runtime \<Rightarrow> user \<Rightarrow> source_row \<Rightarrow> article list \<Rightarrow> world \<Rightarrow> article_row list" where
  "persisted b rt usr source as w =
     drop (length (articles w)) (articles (snd (save_new_articles b rt usr source as w)))"

text \<open>
  A source of alice's with a feed, a store that holds it, and the article of the two-line
  feed.
\<close>

definition alice_source :: source_row where
  "alice_source =
     \<lparr>src_id = js ''s1'', src_userId = js ''alice'', src_name = js ''Example'',
      src_url = js ''https://site.example'', src_rssUrl = Some (js ''https://site.example/feed''),
      src_category = js ''technology'', src_isActive = js ''1'',
      src_createdAt = js ''2024-01-01T00:00:00.000Z'',
      src_updatedAt = js ''2024-01-01T00:00:00.000Z''\<rparr>"

definition world_with_feed :: world where
  "world_with_feed = \<lparr>calls = 0, newsSources = [alice_source], articles = []\<rparr>"

definition example_article :: article where
  "example_article =
     \<lparr>title = js ''Example Article Title'', description = [], content = [],
      url = js ''http://x.com/a'', imageUrl = [],
      publishedAt = js ''2024-01-01T00:00:00.000Z''\<rparr>"

subsection \<open>Feed discovery as the claim words it\<close>









section \<open>Properties of the fingerprint\<close>

lemma signed32_mod: "signed32 (x mod 2 ^ 32) mod 2 ^ 32 = x mod 2 ^ 32"
  by (simp add: signed32_def)

lemma sint_word_of_int_signed32:
  "sint (word_of_int x :: 32 word) = signed32 (x mod 2 ^ 32)"
proof -
  define m where "m = x mod 2 ^ 32"
  have m: "0 \<le> m" "m < 2 ^ 32" by (simp_all add: m_def)
  have "sint (word_of_int x :: 32 word) = (x + 2 ^ 31) mod 2 ^ 32 - 2 ^ 31"
    by (simp add: int_word_sint)
  also have "(x + 2 ^ 31) mod 2 ^ 32 = (m + 2 ^ 31) mod (2 ^ 32 :: int)"
    unfolding m_def by (simp add: mod_simps)
  also have "(m + 2 ^ 31) mod (2 ^ 32 :: int) = (if m < 2 ^ 31 then m + 2 ^ 31 else m - 2 ^ 31)"
  proof (cases "m < 2 ^ 31")
    case True
    with m show ?thesis by simp
  next
    case False
    with m have "0 \<le> m - 2 ^ 31" "m - 2 ^ 31 < (2 ^ 32 :: int)" by simp_all
    then have "(m - 2 ^ 31) mod 2 ^ 32 = m - 2 ^ 31" by simp
    moreover have "(m + 2 ^ 31) mod (2 ^ 32 :: int) = (m - 2 ^ 31) mod 2 ^ 32"
    proof -
      have "m + 2 ^ 31 = (m - 2 ^ 31) + (2 ^ 32 :: int)" by simp
      then show ?thesis by (simp only: mod_add_self2)
    qed
    ultimately show ?thesis using False by simp
  qed
  finally show ?thesis by (simp add: signed32_def m_def)
qed

text \<open>
  One round of the loop is one step of the reference: \<open>(hash << 5) - hash\<close> is \<open>31 * hash\<close>
  modulo \<open>2^32\<close>.
\<close>

lemma hash_step_spec: "hash_step h c = spec_step h c"
proof -
  have "push_bit 5 (word_of_int h :: 32 word) = word_of_int (h * 32)"
    by (simp add: push_bit_eq_mult)
  then have a: "shiftLeft h 5 = signed32 ((h * 32) mod 2 ^ 32)"
    by (simp only: shiftLeft_def toInt32_def sint_word_of_int_signed32)
  have b: "bitAnd x x = signed32 (x mod 2 ^ 32)" for x
    by (simp add: bitAnd_def toInt32_def sint_word_of_int_signed32)
  have "(shiftLeft h 5 - h) mod 2 ^ 32 = (h * 32 - h) mod 2 ^ 32"
    unfolding a by (rule mod_diff_cong [OF signed32_mod refl])
  then have "(shiftLeft h 5 - h + uint c) mod 2 ^ 32 = (h * 32 - h + uint c) mod 2 ^ 32"
    by (rule mod_add_cong) (rule refl)
  moreover have "h * 32 - h + uint c = h * 31 + uint c" by simp
  ultimately show ?thesis
    by (simp add: hash_step_def spec_step_def Let_def b charCode_def mult.commute)
qed

lemma hash_loop_foldl: "hash_loop h s = foldl spec_step h s"
  by (induction s arbitrary: h) (simp_all add: hash_step_spec)

text \<open>
  Claim C2. For every title and description, \<open>generateContentHash\<close> applied to their
  concatenation is the reference hash of the specification: \<open>(hash * 31 + charCode) mod 2^32\<close>
  over the code units from left to right, starting from 0, made a signed 32-bit integer
  at each step and rendered in decimal. It is a function of its input, and the empty
  string gives \<open>"0"\<close>.
\<close>

theorem fingerprint_refines_reference:
  "generateContentHash (t @ d) = spec_fingerprint t d \<and> generateContentHash [] = js ''0''"
  by (simp add: generateContentHash_def spec_fingerprint_def hash_loop_foldl int_toString_def
      js_def digit_char_def)

section \<open>Properties of the parser\<close>

lemma cur_ok_empty: "cur_ok empty_partial"
  by (simp add: cur_ok_def empty_partial_def)

lemma cur_ok_set_title: "cur_ok cur \<Longrightarrow> cur_ok (set_title line cur)"
  by (simp add: cur_ok_def set_title_def Let_def)

lemma cur_ok_set_description: "cur_ok cur \<Longrightarrow> cur_ok (set_description line cur)"
  by (simp add: cur_ok_def set_description_def Let_def)

lemma cur_ok_set_url: "cur_ok cur \<Longrightarrow> cur_ok (set_url line cur)"
  by (simp add: cur_ok_def set_url_def Let_def)

lemma cur_ok_set_publishedAt: "cur_ok cur \<Longrightarrow> cur_ok (set_publishedAt rt line cur)"
  by (simp add: cur_ok_def set_publishedAt_def Let_def split: option.splits)

lemma parse_inv_push:
  "cur_ok cur \<Longrightarrow> length as \<le> 20 \<Longrightarrow> list_all art_ok as \<Longrightarrow> parse_inv (push_article rt cur as)"
  by (auto simp: parse_inv_def push_article_def cur_ok_def art_ok_def empty_partial_def
      split: option.splits)

lemma parse_inv_line: "parse_inv st \<Longrightarrow> parse_inv (parse_line rt line st)"
  unfolding parse_line_def
  by (rule parse_inv_push)
     (simp_all add: parse_inv_def cur_ok_set_title cur_ok_set_description cur_ok_set_url
        cur_ok_set_publishedAt)

lemma parse_inv_lines: "parse_inv st \<Longrightarrow> parse_inv (parse_lines rt ls st)"
  by (induction ls arbitrary: st) (simp_all add: parse_inv_line)

lemma parse_inv_result: "parse_inv (parse_lines rt (split_lines c) (empty_partial, []))"
  by (rule parse_inv_lines) (simp add: parse_inv_def cur_ok_empty)

text \<open>The two example feeds, run through the parser on any runtime.\<close>

lemmas parse_defs =
  parseRSSContent_def split_lines_def parse_line_def set_title_def set_description_def
  set_url_def set_publishedAt_def push_article_def empty_partial_def or_else_def or_str_def
  trim_def is_js_space_def js_def Let_def

lemma parse_one_line_feed: "parseRSSContent rt one_line_feed src = []"
  by (simp add: one_line_feed_def parse_defs)

lemma parse_two_line_feed:
  "parseRSSContent rt two_line_feed src =
     [\<lparr>title = js ''Example Article Title'', description = [], content = [],
       url = js ''http://x.com/a'', imageUrl = [], publishedAt = now_toISOString rt\<rparr>]"
  by (simp add: two_line_feed_def parse_defs)

text \<open>
  Claim C3. Whatever the input, \<open>parseRSSContent\<close> returns at most 20 articles, and each of
  them has a non-empty title and a url that starts with \<open>http\<close>.
\<close>

theorem parse_bound:
  "length (parseRSSContent rt rssContent sourceUrl) \<le> 20 \<and>
   (\<forall>a \<in> set (parseRSSContent rt rssContent sourceUrl).
      title a \<noteq> [] \<and> startsWith (url a) (js ''http''))"
  using parse_inv_result [of rt rssContent]
  by (auto simp: parseRSSContent_def parse_inv_def list_all_iff art_ok_def)

theorem parse_bound_witness:
  "length (parseRSSContent example_runtime two_line_feed []) = 1 \<and>
   title (hd (parseRSSContent example_runtime two_line_feed [])) \<noteq> [] \<and>
   startsWith (url (hd (parseRSSContent example_runtime two_line_feed []))) (js ''http'')"
  using parse_bound [of example_runtime two_line_feed "[]"]
  by (simp add: parse_two_line_feed)

text \<open>
  Claim C8, as amended. The one-line feed of the scenario,
  \<open><title>Example Article Title</title><link>http://x.com/a</link>\<close>, gives no article: the
  line holds a closing link tag, so the test of line 330 rejects it and no url is ever set.
  With the title on one line and the unclosed link \<open><link>http://x.com/a\<close> on the next, the
  parser gives exactly one article, with that title, that url and the empty description.
\<close>

theorem scenario_feed_needs_open_link_line:
  "parseRSSContent rt one_line_feed src = [] \<and>
   parseRSSContent rt two_line_feed src =
     [\<lparr>title = js ''Example Article Title'', description = [], content = [],
       url = js ''http://x.com/a'', imageUrl = [], publishedAt = now_toISOString rt\<rparr>]"
  using parse_one_line_feed [of rt src] parse_two_line_feed [of rt src] by simp

text \<open>The claim as stated fails: the one-line feed gives no article where the claim has one.\<close>

theorem scenario_one_line_feed_counterexample:
  "length (parseRSSContent example_runtime one_line_feed []) \<noteq> 1"
  by (simp add: parse_one_line_feed)

text \<open>
  Claim C9. A line whose text, tags stripped and trimmed, is exactly \<open>RSS\<close> or shorter than
  11 code units leaves the title of \<open>currentArticle\<close> as it was, and no article returned by
  \<open>parseRSSContent\<close> has a title that is \<open>RSS\<close> or shorter than 11 code units.
\<close>

theorem noise_filter:
  "(trim (strip_tags line) = js ''RSS'' \<or> length (trim (strip_tags line)) < 11
      \<longrightarrow> set_title line cur = cur) \<and>
   (\<forall>a \<in> set (parseRSSContent rt rssContent sourceUrl).
      title a \<noteq> js ''RSS'' \<and> \<not> length (title a) < 11)"
  using parse_inv_result [of rt rssContent]
  by (auto simp: parseRSSContent_def parse_inv_def list_all_iff art_ok_def set_title_def Let_def)

theorem noise_filter_witness:
  "trim (strip_tags (js ''<title>RSS</title>'')) = js ''RSS'' \<and>
   set_title (js ''<title>RSS</title>'') empty_partial = empty_partial \<and>
   length (trim (strip_tags (js ''<title>Short one</title>''))) < 11 \<and>
   set_title (js ''<title>Short one</title>'') empty_partial = empty_partial \<and>
   length (parseRSSContent example_runtime two_line_feed []) = 1 \<and>
   title (hd (parseRSSContent example_runtime two_line_feed [])) \<noteq> js ''RSS'' \<and>
   \<not> length (title (hd (parseRSSContent example_runtime two_line_feed []))) < 11"
  using noise_filter [of "js ''<title>RSS</title>''" empty_partial example_runtime two_line_feed "[]"]
    noise_filter [of "js ''<title>Short one</title>''" empty_partial example_runtime two_line_feed "[]"]
  by (simp add: parse_two_line_feed trim_def is_js_space_def js_def)

section \<open>Properties of the service\<close>

subsection \<open>Feed discovery and source creation\<close>

lemma probe_paths_same_store: "same_store w (snd (probe_paths b rt site paths w))"
proof (induction paths arbitrary: w)
  case Nil
  show ?case by (simp add: same_store_def)
next
  case (Cons p ps)
  have "same_store w (snd (probe_paths b rt site ps (tick w)))"
    using Cons [of "tick w"] by (simp add: same_store_def tick_def)
  with Cons [of w] show ?case
    by (auto simp: call_extractFromUrl_def same_store_def tick_def split: option.splits sum.splits)
qed

lemma discover_try_same_store: "same_store w (snd (discoverRSSFeed_try b rt site w))"
  using probe_paths_same_store [of "tick w" b rt site commonPaths]
  by (auto simp: discoverRSSFeed_try_def call_scrape_def same_store_def tick_def
      split: sum.splits option.splits)

lemma discover_same_store: "same_store w (snd (discoverRSSFeed b rt site w))"
  using discover_try_same_store [of w b rt site]
  by (auto simp: discoverRSSFeed_def split: prod.splits sum.splits)

text \<open>
  Claim C6. When the user is signed in and feed discovery returns null, \<open>addNewsSource\<close>
  throws the error \<open>Could not find RSS feed for this website\<close> to its caller, and the store
  holds the sources and the articles it held before: no source was persisted.
\<close>

theorem add_source_feed_not_found:
  assumes "auth_me b (calls w) = Inr (Some usr)"
    and "fst (discoverRSSFeed b rt websiteUrl (tick w)) = Inr None"
  shows "fst (addNewsSource b rt name websiteUrl category w) =
           Inl (Error (js ''Could not find RSS feed for this website'')) \<and>
         newsSources (snd (addNewsSource b rt name websiteUrl category w)) = newsSources w \<and>
         articles (snd (addNewsSource b rt name websiteUrl category w)) = articles w"
proof -
  obtain r w2 where d: "discoverRSSFeed b rt websiteUrl (tick w) = (r, w2)"
    by (cases "discoverRSSFeed b rt websiteUrl (tick w)")
  with assms(2) have r: "r = Inr None" by simp
  from d discover_same_store [of "tick w" b rt websiteUrl]
  have "same_store w w2" by (simp add: same_store_def tick_def)
  with assms(1) d r show ?thesis
    by (simp add: addNewsSource_def addNewsSource_try_def call_auth_me_def same_store_def)
qed

lemma discover_no_feed_site:
  "fst (discoverRSSFeed no_feed_backend example_runtime (js ''https://no-feed-site.example'')
         (tick empty_world)) = Inr None"
  by (simp add: discoverRSSFeed_def discoverRSSFeed_try_def call_scrape_def no_feed_backend_def
      commonPaths_def example_runtime_def call_extractFromUrl_def)

theorem add_source_feed_not_found_witness:
  "auth_me no_feed_backend (calls empty_world) = Inr (Some alice) \<and>
   fst (discoverRSSFeed no_feed_backend example_runtime (js ''https://no-feed-site.example'')
         (tick empty_world)) = Inr None \<and>
   fst (addNewsSource no_feed_backend example_runtime (js ''Test'')
         (js ''https://no-feed-site.example'') (js ''general'') empty_world) =
     Inl (Error (js ''Could not find RSS feed for this website'')) \<and>
   newsSources (snd (addNewsSource no_feed_backend example_runtime (js ''Test'')
         (js ''https://no-feed-site.example'') (js ''general'') empty_world)) = []"
  using add_source_feed_not_found [of no_feed_backend empty_world alice example_runtime
      "js ''https://no-feed-site.example''" "js ''Test''" "js ''general''"]
    discover_no_feed_site
  by (simp add: no_feed_backend_def empty_world_def)

subsection \<open>Ingestion never throws\<close>

lemma refresh_returns: "fst (refreshSourceArticles b rt sourceId w) = Inr ()"
  by (simp add: refreshSourceArticles_def split: prod.splits sum.splits)

lemma refresh_signed_out:
  "auth_me b (calls w) = Inr None \<Longrightarrow> same_store w (snd (refreshSourceArticles b rt sourceId w))"
  by (simp add: refreshSourceArticles_def refreshSourceArticles_try_def call_auth_me_def
      same_store_def tick_def)

lemma refresh_no_source:
  "auth_me b (calls w) = Inr (Some usr) \<Longrightarrow> db_fault b (Suc (calls w)) = None \<Longrightarrow>
   filter (\<lambda>s. src_id s = sourceId \<and> src_userId s = user_id usr) (newsSources w) = [] \<Longrightarrow>
   same_store w (snd (refreshSourceArticles b rt sourceId w))"
  by (simp add: refreshSourceArticles_def refreshSourceArticles_try_def call_auth_me_def
      db_newsSources_list_def same_store_def tick_def)

lemma refresh_no_feed:
  "auth_me b (calls w) = Inr (Some usr) \<Longrightarrow> db_fault b (Suc (calls w)) = None \<Longrightarrow>
   filter (\<lambda>s. src_id s = sourceId \<and> src_userId s = user_id usr) (newsSources w) = source # others \<Longrightarrow>
   src_rssUrl source = None \<or> src_rssUrl source = Some [] \<Longrightarrow>
   same_store w (snd (refreshSourceArticles b rt sourceId w))"
  by (auto simp add: refreshSourceArticles_def refreshSourceArticles_try_def call_auth_me_def
      db_newsSources_list_def same_store_def tick_def)

text \<open>
  Claim C7. \<open>refreshSourceArticles\<close> returns normally whatever the backend answers and
  wherever it throws. When nobody is signed in, when the store lists no source with the
  given id for the user, and when the source listed has no feed url (none, or the empty
  string), the store is left as it was.
\<close>

theorem refresh_never_raises:
  "fst (refreshSourceArticles b rt sourceId w) = Inr () \<and>
   (auth_me b (calls w) = Inr None \<longrightarrow>
      same_store w (snd (refreshSourceArticles b rt sourceId w))) \<and>
   (auth_me b (calls w) = Inr (Some usr) \<and> db_fault b (Suc (calls w)) = None \<and>
    filter (\<lambda>s. src_id s = sourceId \<and> src_userId s = user_id usr) (newsSources w) = [] \<longrightarrow>
      same_store w (snd (refreshSourceArticles b rt sourceId w))) \<and>
   (auth_me b (calls w) = Inr (Some usr) \<and> db_fault b (Suc (calls w)) = None \<and>
    filter (\<lambda>s. src_id s = sourceId \<and> src_userId s = user_id usr) (newsSources w) = source # others \<and>
    (src_rssUrl source = None \<or> src_rssUrl source = Some []) \<longrightarrow>
      same_store w (snd (refreshSourceArticles b rt sourceId w)))"
  using refresh_returns [of b rt sourceId w] refresh_signed_out [of b w rt sourceId]
    refresh_no_source [of b w usr sourceId rt] refresh_no_feed [of b w usr sourceId source others rt]
  by blast

theorem refresh_never_raises_witness:
  "fst (refreshSourceArticles signed_out_backend example_runtime (js ''s1'') world_without_feed) = Inr () \<and>
   auth_me signed_out_backend (calls world_without_feed) = Inr None \<and>
   same_store world_without_feed
     (snd (refreshSourceArticles signed_out_backend example_runtime (js ''s1'') world_without_feed)) \<and>
   auth_me alice_backend (calls world_without_feed) = Inr (Some alice) \<and>
   db_fault alice_backend (Suc (calls world_without_feed)) = None \<and>
   filter (\<lambda>s. src_id s = js ''s2'' \<and> src_userId s = user_id alice) (newsSources world_without_feed) = [] \<and>
   same_store world_without_feed
     (snd (refreshSourceArticles alice_backend example_runtime (js ''s2'') world_without_feed)) \<and>
   filter (\<lambda>s. src_id s = js ''s1'' \<and> src_userId s = user_id alice) (newsSources world_without_feed)
     = [source_without_feed] \<and>
   src_rssUrl source_without_feed = None \<and>
   same_store world_without_feed
     (snd (refreshSourceArticles alice_backend example_runtime (js ''s1'') world_without_feed))"
  using refresh_never_raises [of signed_out_backend example_runtime "js ''s1''" world_without_feed]
    refresh_never_raises [of alice_backend example_runtime "js ''s2''" world_without_feed alice]
    refresh_never_raises [of alice_backend example_runtime "js ''s1''" world_without_feed alice
      source_without_feed "[]"]
  by (simp add: signed_out_backend_def alice_backend_def world_without_feed_def
      source_without_feed_def alice_def js_def)

subsection \<open>Bookmarks\<close>

lemma filter_unique_id:
  "distinct (map art_id xs) \<Longrightarrow> a \<in> set xs \<Longrightarrow>
   filter (\<lambda>r. art_id r = art_id a \<and> art_userId r = art_userId a) xs = [a]"
proof (induction xs)
  case Nil
  then show ?case by simp
next
  case (Cons x xs)
  show ?case
  proof (cases "x = a")
    case True
    from Cons.prems True have "art_id a \<notin> art_id ` set xs" by simp
    then have "\<forall>r \<in> set xs. art_id r \<noteq> art_id a" by (metis imageI)
    then have "filter (\<lambda>r. art_id r = art_id a \<and> art_userId r = art_userId a) xs = []"
      by (simp add: filter_empty_conv)
    with True show ?thesis by simp
  next
    case False
    with Cons.prems have "a \<in> set xs" "art_id x \<noteq> art_id a" "distinct (map art_id xs)" by auto
    with Cons.IH show ?thesis by simp
  qed
qed

lemma toggle_once:
  assumes rt: "number_gt_zero rt (js ''1'')" "\<not> number_gt_zero rt (js ''0'')"
    and auth: "auth_me b (calls w) = Inr (Some usr)"
    and ok: "db_fault b (calls w + 1) = None" "db_fault b (calls w + 2) = None"
    and a: "a \<in> set (articles w)" "art_id a = articleId" "art_userId a = user_id usr"
    and flag: "art_isBookmarked a = js ''0'' \<or> art_isBookmarked a = js ''1''"
    and uniq: "distinct (map art_id (articles w))"
  shows "toggleBookmark b rt articleId w =
           (Inr (), w\<lparr>calls := calls w + 3, articles := map (flip_bookmark articleId) (articles w)\<rparr>)"
proof -
  have f: "filter (\<lambda>r. art_id r = articleId \<and> art_userId r = user_id usr) (articles w) = [a]"
    using filter_unique_id [OF uniq a(1)] a(2,3) by simp
  have new: "(if number_gt_zero rt (art_isBookmarked a) then js ''0'' else js ''1'') = flip_flag (art_isBookmarked a)"
    using flag rt by (auto simp: flip_flag_def js_def)
  have m: "map (\<lambda>r. if art_id r = articleId
                     then apply_patch [(IsBookmarked, flip_flag (art_isBookmarked a))] r else r)
             (articles w)
      = map (flip_bookmark articleId) (articles w)"
    unfolding flip_bookmark_def
    by (rule map_cong) (use uniq a in \<open>auto simp: distinct_map inj_on_def apply_patch_def\<close>)
  have n: "calls w + 3 = Suc (Suc (Suc (calls w)))" by simp
  show ?thesis
    unfolding n using auth ok
    by (simp add: toggleBookmark_def toggleBookmark_try_def call_auth_me_def db_articles_list_def
        db_articles_update_def tick_def f new m Let_def)
qed

lemma flip_flag_twice: "v = js ''0'' \<or> v = js ''1'' \<Longrightarrow> flip_flag (flip_flag v) = v"
  by (auto simp: flip_flag_def js_def)

lemma flip_flag_range: "flip_flag v = js ''0'' \<or> flip_flag v = js ''1''"
  by (simp add: flip_flag_def)

lemma flip_bookmark_id: "art_id (flip_bookmark i r) = art_id r"
  by (simp add: flip_bookmark_def)

lemma flip_bookmark_twice:
  "art_isBookmarked r = js ''0'' \<or> art_isBookmarked r = js ''1'' \<or> art_id r \<noteq> i \<Longrightarrow> flip_bookmark i (flip_bookmark i r) = r"
  by (auto simp: flip_bookmark_def flip_flag_twice)

text \<open>
  Claim C10. Let an article with the given id be in the store and belong to the user
  signed in, its bookmark flag \<open>"0"\<close> or \<open>"1"\<close>, the ids of the store distinct, and let the
  store answer the two calls of \<open>toggleBookmark\<close>; let the runtime have \<open>Number("1") > 0\<close> and
  not \<open>Number("0") > 0\<close>. Then one call leaves the sources alone and changes the articles in
  this only: the bookmark flag of the row with that id is flipped, by the patch that sets
  \<open>isBookmarked\<close> and no other field. A second call answered the same way gives back the
  articles as they were.
\<close>

theorem toggle_bookmark_flips:
  assumes rt: "number_gt_zero rt (js ''1'')" "\<not> number_gt_zero rt (js ''0'')"
    and auth: "auth_me b (calls w) = Inr (Some usr)"
    and ok: "db_fault b (calls w + 1) = None" "db_fault b (calls w + 2) = None"
    and a: "a \<in> set (articles w)" "art_id a = articleId" "art_userId a = user_id usr"
    and flag: "art_isBookmarked a = js ''0'' \<or> art_isBookmarked a = js ''1''"
    and uniq: "distinct (map art_id (articles w))"
  shows "articles (snd (toggleBookmark b rt articleId w)) = map (flip_bookmark articleId) (articles w) \<and>
         newsSources (snd (toggleBookmark b rt articleId w)) = newsSources w \<and>
         (auth_me b (calls w + 3) = Inr (Some usr) \<and> db_fault b (calls w + 4) = None \<and>
          db_fault b (calls w + 5) = None \<longrightarrow>
            articles (snd (toggleBookmark b rt articleId (snd (toggleBookmark b rt articleId w)))) = articles w)"
proof -
  let ?w1 = "w\<lparr>calls := calls w + 3, articles := map (flip_bookmark articleId) (articles w)\<rparr>"
  let ?a1 = "flip_bookmark articleId a"
  have once: "toggleBookmark b rt articleId w = (Inr (), ?w1)"
    by (rule toggle_once [OF assms])
  have twice: "articles (snd (toggleBookmark b rt articleId ?w1)) = articles w"
    if h: "auth_me b (calls w + 3) = Inr (Some usr)" "db_fault b (calls w + 4) = None"
      "db_fault b (calls w + 5) = None"
  proof -
    have a1: "?a1 \<in> set (articles ?w1)" using a(1) by simp
    have id1: "art_id ?a1 = articleId" "art_userId ?a1 = user_id usr"
      using a by (simp_all add: flip_bookmark_def)
    have flag1: "art_isBookmarked ?a1 = js ''0'' \<or> art_isBookmarked ?a1 = js ''1''"
      using a(2) flip_flag_range [of "art_isBookmarked a"] by (simp add: flip_bookmark_def)
    have uniq1: "distinct (map art_id (articles ?w1))"
      using uniq by (simp add: comp_def flip_bookmark_id)
    have "toggleBookmark b rt articleId ?w1 =
        (Inr (), ?w1\<lparr>calls := calls ?w1 + 3, articles := map (flip_bookmark articleId) (articles ?w1)\<rparr>)"
      by (rule toggle_once [OF rt _ _ _ a1 id1 flag1 uniq1]) (use h in \<open>simp_all add: add.commute\<close>)
    moreover have "map (flip_bookmark articleId) (map (flip_bookmark articleId) (articles w)) = articles w"
    proof -
      have "flip_bookmark articleId (flip_bookmark articleId r) = r" if "r \<in> set (articles w)" for r
      proof (cases "art_id r = articleId")
        case True
        with that uniq a have "r = a" by (auto simp: distinct_map inj_on_def)
        with flag show ?thesis by (auto simp: flip_bookmark_def flip_flag_twice)
      next
        case False
        then show ?thesis by (simp add: flip_bookmark_twice)
      qed
      then show ?thesis by (simp add: map_idI)
    qed
    ultimately show ?thesis by simp
  qed
  from once twice show ?thesis by simp
qed


theorem toggle_bookmark_flips_witness:
  "number_gt_zero example_runtime (js ''1'') \<and> \<not> number_gt_zero example_runtime (js ''0'') \<and>
   auth_me alice_backend (calls world_two_readers) = Inr (Some alice) \<and>
   db_fault alice_backend (calls world_two_readers + 1) = None \<and>
   db_fault alice_backend (calls world_two_readers + 2) = None \<and>
   alice_article \<in> set (articles world_two_readers) \<and>
   art_id alice_article = js ''a1'' \<and> art_userId alice_article = user_id alice \<and>
   art_isBookmarked alice_article = js ''0'' \<and>
   distinct (map art_id (articles world_two_readers)) \<and>
   articles (snd (toggleBookmark alice_backend example_runtime (js ''a1'') world_two_readers)) =
     [alice_article\<lparr>art_isBookmarked := js ''1''\<rparr>, bob_article] \<and>
   auth_me alice_backend (calls world_two_readers + 3) = Inr (Some alice) \<and>
   db_fault alice_backend (calls world_two_readers + 4) = None \<and>
   db_fault alice_backend (calls world_two_readers + 5) = None \<and>
   articles (snd (toggleBookmark alice_backend example_runtime (js ''a1'')
       (snd (toggleBookmark alice_backend example_runtime (js ''a1'') world_two_readers)))) =
     [alice_article, bob_article]"
  using toggle_bookmark_flips [of example_runtime alice_backend world_two_readers alice
      alice_article "js ''a1''"]
  by (simp add: example_runtime_def alice_backend_def world_two_readers_def alice_article_def
      bob_article_def alice_def flip_bookmark_def flip_flag_def js_def)

subsection \<open>Ownership\<close>

text \<open>
  Claim C4 fails on \<open>markAsRead\<close>. With alice signed in and an article of bob's in the
  store, \<open>markAsRead\<close> with the id of bob's article sets the read flag of bob's row: the
  update goes by the id alone. \<open>toggleBookmark\<close>, which lists the article by id and user id
  before it updates, leaves bob's row alone on the same input.
\<close>

theorem mark_as_read_writes_other_users_article:
  "auth_me alice_backend (calls world_two_readers) = Inr (Some alice) \<and>
   art_userId bob_article = user_id bob \<and> user_id bob \<noteq> user_id alice \<and>
   articles (snd (markAsRead alice_backend (js ''b1'') world_two_readers)) =
     [alice_article, bob_article\<lparr>art_isRead := js ''1''\<rparr>] \<and>
   articles (snd (toggleBookmark alice_backend example_runtime (js ''b1'') world_two_readers)) =
     [alice_article, bob_article]"
  by (simp add: markAsRead_def markAsRead_try_def toggleBookmark_def toggleBookmark_try_def
      call_auth_me_def db_articles_update_def db_articles_list_def tick_def apply_patch_def
      alice_backend_def world_two_readers_def alice_article_def bob_article_def alice_def bob_def
      js_def)

subsection \<open>Deduplication\<close>

lemma user_hashes_tick: "user_hashes u (tick w) = user_hashes u w"
  by (simp add: user_hashes_def tick_def)

lemma user_hashes_calls: "user_hashes u (w\<lparr>calls := n\<rparr>) = user_hashes u w"
  by (simp add: user_hashes_def)

lemma user_hashes_add_row:
  "user_hashes u (add_row r w) = user_hashes u w @ (if art_userId r = u then [art_contentHash r] else [])"
  by (simp add: user_hashes_def add_row_def)

lemma created_row_simps:
  "art_userId (created_row rt usr source a n) = user_id usr"
  "art_contentHash (created_row rt usr source a n) = fingerprint a"
  "art_title (created_row rt usr source a n) = title a"
  "art_url (created_row rt usr source a n) = url a"
  by (simp_all add: created_row_def)

lemma filter_hash_empty:
  "(filter (\<lambda>r. art_userId r = u \<and> art_contentHash r = h) (articles w) = []) = (h \<notin> set (user_hashes u w))"
  by (auto simp: user_hashes_def filter_empty_conv)

text \<open>One round of the loop, the list and the create of the store spelt out.\<close>

lemma save_new_articles_Cons:
  "save_new_articles b rt usr source (a # as) w =
     (case db_fault b (calls w) of
        Some e \<Rightarrow> (Inl e, tick w)
      | None \<Rightarrow>
          if fingerprint a \<in> set (user_hashes (user_id usr) w)
          then save_new_articles b rt usr source as (tick w)
          else (case db_fault b (Suc (calls w)) of
                  Some e \<Rightarrow> (Inl e, tick (tick w))
                | None \<Rightarrow> save_new_articles b rt usr source as
                    (add_row (created_row rt usr source a (Suc (calls w))) w)))"
  using filter_hash_empty [of "user_id usr" "fingerprint a" w]
  by (auto simp: db_articles_list_def db_articles_create_def Let_def tick_def fingerprint_def
      created_row_def add_row_def split: option.splits)

declare save_new_articles.simps(2) [simp del]

text \<open>
  A round of the loop aborts on a throw of the store, skips a known fingerprint, or
  creates a row.
\<close>

lemma save_step:
  obtains (abort) w' where "snd (save_new_articles b rt usr source (a # as) w) = w'"
      and "articles w' = articles w" and "newsSources w' = newsSources w"
      and "db_fault b (calls w) \<noteq> None \<or> db_fault b (Suc (calls w)) \<noteq> None"
  | (skip) "fingerprint a \<in> set (user_hashes (user_id usr) w)"
      and "save_new_articles b rt usr source (a # as) w = save_new_articles b rt usr source as (tick w)"
  | (create) "fingerprint a \<notin> set (user_hashes (user_id usr) w)"
      and "save_new_articles b rt usr source (a # as) w =
             save_new_articles b rt usr source as
               (add_row (created_row rt usr source a (Suc (calls w))) w)"
proof (cases "db_fault b (calls w)")
  case (Some e)
  then have "snd (save_new_articles b rt usr source (a # as) w) = tick w"
    by (simp add: save_new_articles_Cons)
  with Some show ?thesis by (intro abort [of "tick w"]) (simp_all add: tick_def)
next
  case None
  note l = this
  show ?thesis
  proof (cases "fingerprint a \<in> set (user_hashes (user_id usr) w)")
    case True
    with l show ?thesis
      by (intro skip) (simp_all add: save_new_articles_Cons)
  next
    case False
    show ?thesis
    proof (cases "db_fault b (Suc (calls w))")
      case (Some e)
      with l False have "snd (save_new_articles b rt usr source (a # as) w) = tick (tick w)"
        by (simp add: save_new_articles_Cons)
      with Some show ?thesis by (intro abort [of "tick (tick w)"]) (simp_all add: tick_def)
    next
      case None
      with l False show ?thesis
        by (intro create) (simp_all add: save_new_articles_Cons)
    qed
  qed
qed

lemma articles_user_hashes: "articles w' = articles w \<Longrightarrow> user_hashes u w' = user_hashes u w"
  by (simp add: user_hashes_def)

lemma save_preserves_no_dup:
  "no_duplicate_fingerprints u w \<Longrightarrow>
   no_duplicate_fingerprints u (snd (save_new_articles b rt usr source as w))"
proof (induction as arbitrary: w)
  case Nil
  then show ?case by simp
next
  case (Cons a as)
  show ?case
  proof (cases rule: save_step [of b rt usr source a as w])
    case (abort w')
    with Cons.prems articles_user_hashes [OF abort(2), of u] show ?thesis
      by (simp add: no_duplicate_fingerprints_def)
  next
    case skip
    from Cons.prems have "no_duplicate_fingerprints u (tick w)"
      by (simp add: no_duplicate_fingerprints_def user_hashes_tick)
    from Cons.IH [OF this] skip show ?thesis by simp
  next
    case create
    with Cons.prems have "no_duplicate_fingerprints u (add_row (created_row rt usr source a (Suc (calls w))) w)"
      by (auto simp: no_duplicate_fingerprints_def user_hashes_add_row created_row_simps)
    from Cons.IH [OF this] create show ?thesis by simp
  qed
qed

lemma save_hashes_grow:
  "set (user_hashes u w) \<subseteq> set (user_hashes u (snd (save_new_articles b rt usr source as w)))"
proof (induction as arbitrary: w)
  case Nil
  show ?case by simp
next
  case (Cons a as)
  show ?case
  proof (cases rule: save_step [of b rt usr source a as w])
    case (abort w')
    with articles_user_hashes [OF abort(2), of u] show ?thesis by simp
  next
    case skip
    with Cons [of "tick w"] show ?thesis by (simp add: user_hashes_tick)
  next
    case create
    have "set (user_hashes u w) \<subseteq> set (user_hashes u (add_row (created_row rt usr source a (Suc (calls w))) w))"
      by (simp add: user_hashes_add_row)
    also note Cons [of "add_row (created_row rt usr source a (Suc (calls w))) w"]
    finally show ?thesis using create by simp
  qed
qed

lemma save_makes_present:
  assumes ok: "\<forall>n. db_fault b n = None"
  shows "fingerprint ` set as \<subseteq> set (user_hashes (user_id usr) (snd (save_new_articles b rt usr source as w)))"
proof (induction as arbitrary: w)
  case Nil
  show ?case by simp
next
  case (Cons a as)
  show ?case
  proof (cases rule: save_step [of b rt usr source a as w])
    case (abort w')
    with ok show ?thesis by simp
  next
    case skip
    from skip(1) have "fingerprint a \<in> set (user_hashes (user_id usr) (tick w))"
      by (simp add: user_hashes_tick)
    with save_hashes_grow [of "user_id usr" "tick w" b rt usr source as]
    have "fingerprint a \<in> set (user_hashes (user_id usr) (snd (save_new_articles b rt usr source as (tick w))))"
      by blast
    with Cons [of "tick w"] skip(2) show ?thesis by simp
  next
    case create
    let ?w2 = "add_row (created_row rt usr source a (Suc (calls w))) w"
    have "fingerprint a \<in> set (user_hashes (user_id usr) ?w2)"
      by (simp add: user_hashes_add_row created_row_simps)
    with save_hashes_grow [of "user_id usr" ?w2 b rt usr source as]
    have "fingerprint a \<in> set (user_hashes (user_id usr) (snd (save_new_articles b rt usr source as ?w2)))"
      by blast
    with Cons [of ?w2] create(2) show ?thesis by simp
  qed
qed

lemma save_all_present:
  "fingerprint ` set as \<subseteq> set (user_hashes (user_id usr) w) \<Longrightarrow>
   articles (snd (save_new_articles b rt usr source as w)) = articles w"
proof (induction as arbitrary: w)
  case Nil
  show ?case by simp
next
  case (Cons a as)
  show ?case
  proof (cases rule: save_step [of b rt usr source a as w])
    case (abort w')
    then show ?thesis by simp
  next
    case skip
    from Cons.prems have "fingerprint ` set as \<subseteq> set (user_hashes (user_id usr) (tick w))"
      by (simp add: user_hashes_tick)
    from Cons.IH [OF this] skip(2) show ?thesis by (simp add: tick_def)
  next
    case create
    with Cons.prems show ?thesis by simp
  qed
qed

text \<open>
  The titles, descriptions and urls that the parser returns do not depend on the runtime.
\<close>

lemma same_text_line:
  assumes "same_text st st'"
  shows "same_text (parse_line rt line st) (parse_line rt' line st')"
proof -
  from assms have l: "length (snd st) = length (snd st')"
    unfolding same_text_def by (metis length_map)
  let ?c = "set_url line (set_description line (set_title line (fst st)))"
  let ?c' = "set_url line (set_description line (set_title line (fst st')))"
  have t: "cur_title ?c = cur_title ?c'" "cur_description ?c = cur_description ?c'" "cur_url ?c = cur_url ?c'"
    using assms by (simp_all add: same_text_def set_title_def set_description_def set_url_def Let_def)
  let ?d = "set_publishedAt rt line ?c"
  let ?d' = "set_publishedAt rt' line ?c'"
  have d: "cur_title ?d = cur_title ?d'" "cur_description ?d = cur_description ?d'" "cur_url ?d = cur_url ?d'"
    using t by (simp_all add: set_publishedAt_def Let_def split: option.splits)
  have "same_text (push_article rt ?d (snd st)) (push_article rt' ?d' (snd st'))"
    using d l assms
    by (simp add: same_text_def push_article_def empty_partial_def fingerprint_def
        split: option.splits)
  then show ?thesis by (simp add: parse_line_def)
qed

lemma same_text_lines:
  "same_text st st' \<Longrightarrow> same_text (parse_lines rt ls st) (parse_lines rt' ls st')"
  by (induction ls arbitrary: st st') (simp_all add: same_text_line)

lemma parse_fingerprints_runtime:
  "map fingerprint (parseRSSContent rt c s) = map fingerprint (parseRSSContent rt' c s')"
  using same_text_lines [of "(empty_partial, [])" "(empty_partial, [])" rt "split_lines c" rt']
  by (simp add: parseRSSContent_def same_text_def)

lemma fetched_fingerprints_runtime:
  "map fingerprint (fetched b rt u n) = map fingerprint (fetched b rt' u n)"
  by (simp add: fetched_def parse_fingerprints_runtime split: sum.splits)

lemma save_keeps_sources:
  "newsSources (snd (save_new_articles b rt usr source as w)) = newsSources w"
proof (induction as arbitrary: w)
  case Nil
  show ?case by simp
next
  case (Cons a as)
  show ?case
  proof (cases rule: save_step [of b rt usr source a as w])
    case (abort w')
    then show ?thesis by simp
  next
    case skip
    with Cons [of "tick w"] show ?thesis by (simp add: tick_def)
  next
    case create
    with Cons [of "add_row (created_row rt usr source a (Suc (calls w))) w"] show ?thesis
      by (simp add: add_row_def)
  qed
qed

lemma snd_catch:
  "snd (case x of (Inl e, w1) \<Rightarrow> (Inr (), w1) | (Inr u, w1) \<Rightarrow> (Inr u, w1)) = snd x"
  by (simp split: prod.splits sum.splits)

lemma refresh_plan_None:
  "refresh_plan b sid w = None \<Longrightarrow> same_store w (snd (refreshSourceArticles b rt sid w))"
  by (auto simp: refresh_plan_def refreshSourceArticles_def refreshSourceArticles_try_def
      call_auth_me_def db_newsSources_list_def tick_def same_store_def
      split: sum.splits option.splits list.splits if_splits)

lemma refresh_plan_Some:
  "refresh_plan b sid w = Some (usr, source, rssUrl) \<Longrightarrow>
   snd (refreshSourceArticles b rt sid w) =
     snd (save_new_articles b rt usr source (fetched b rt rssUrl (Suc (Suc (calls w))))
            (w\<lparr>calls := Suc (Suc (Suc (calls w)))\<rparr>))"
  unfolding refreshSourceArticles_def snd_catch
  by (auto simp: refresh_plan_def refreshSourceArticles_try_def fetched_def
      call_auth_me_def db_newsSources_list_def fetchRSSFeed_def call_extractFromUrl_def tick_def
      split: sum.splits option.splits list.splits if_splits)

lemma refresh_keeps_sources:
  "newsSources (snd (refreshSourceArticles b rt sid w)) = newsSources w"
proof (cases "refresh_plan b sid w")
  case None
  from refresh_plan_None [OF this, of rt] show ?thesis by (simp add: same_store_def)
next
  case (Some p)
  obtain usr source rssUrl where p: "p = (usr, source, rssUrl)" by (cases p)
  from refresh_plan_Some [of b sid w usr source rssUrl rt] Some p show ?thesis
    by (simp add: save_keeps_sources)
qed

lemma refresh_preserves_no_dup:
  assumes "no_duplicate_fingerprints u w"
  shows "no_duplicate_fingerprints u (snd (refreshSourceArticles b rt sid w))"
proof (cases "refresh_plan b sid w")
  case None
  from refresh_plan_None [OF this, of rt] assms show ?thesis
    by (simp add: same_store_def no_duplicate_fingerprints_def user_hashes_def)
next
  case (Some p)
  obtain usr source rssUrl where p: "p = (usr, source, rssUrl)" by (cases p)
  from assms have "no_duplicate_fingerprints u (w\<lparr>calls := Suc (Suc (Suc (calls w)))\<rparr>)"
    by (simp add: no_duplicate_fingerprints_def user_hashes_calls)
  from save_preserves_no_dup [OF this] refresh_plan_Some [of b sid w usr source rssUrl rt] Some p
  show ?thesis by simp
qed

lemma refresh_each_preserves_no_dup:
  "no_duplicate_fingerprints u w \<Longrightarrow> no_duplicate_fingerprints u (refresh_each b cs w)"
proof (induction cs arbitrary: w)
  case Nil
  then show ?case by simp
next
  case (Cons c cs)
  obtain rt sid where c: "c = (rt, sid)" by (cases c)
  from Cons.prems have "no_duplicate_fingerprints u (snd (refreshSourceArticles b rt sid w))"
    by (rule refresh_preserves_no_dup)
  from Cons.IH [OF this] c show ?case by simp
qed

lemma steady_plan:
  assumes "steady b" and "newsSources w' = newsSources w"
  shows "refresh_plan b sid w' = refresh_plan b sid w"
proof -
  from assms(1) have "auth_me b (calls w') = auth_me b (calls w)"
    unfolding steady_def by metis
  moreover from assms(1) have "db_fault b (Suc (calls w')) = None" "db_fault b (Suc (calls w)) = None"
    unfolding steady_def by simp_all
  ultimately show ?thesis using assms(2)
    by (simp add: refresh_plan_def split: sum.splits option.splits)
qed

lemma steady_fetched:
  assumes "steady b"
  shows "fetched b rt u n = fetched b rt u 0"
proof -
  from assms have "data_extractFromUrl b n = data_extractFromUrl b 0"
    unfolding steady_def by blast
  then show ?thesis by (simp add: fetched_def)
qed

lemma refresh_twice:
  assumes st: "steady b"
  shows "articles (snd (refreshSourceArticles b rt2 sid (snd (refreshSourceArticles b rt1 sid w)))) =
         articles (snd (refreshSourceArticles b rt1 sid w))"
proof -
  let ?w1 = "snd (refreshSourceArticles b rt1 sid w)"
  have plan: "refresh_plan b sid ?w1 = refresh_plan b sid w"
    by (rule steady_plan [OF st refresh_keeps_sources])
  show ?thesis
  proof (cases "refresh_plan b sid w")
    case None
    with plan refresh_plan_None [of b sid ?w1 rt2] show ?thesis by (simp add: same_store_def)
  next
    case (Some p)
    obtain usr source rssUrl where p: "p = (usr, source, rssUrl)" by (cases p)
    let ?as1 = "fetched b rt1 rssUrl (Suc (Suc (calls w)))"
    let ?as2 = "fetched b rt2 rssUrl (Suc (Suc (calls ?w1)))"
    let ?w0 = "w\<lparr>calls := Suc (Suc (Suc (calls w)))\<rparr>"
    let ?w1' = "?w1\<lparr>calls := Suc (Suc (Suc (calls ?w1)))\<rparr>"
    have w1: "?w1 = snd (save_new_articles b rt1 usr source ?as1 ?w0)"
      using refresh_plan_Some [of b sid w usr source rssUrl rt1] Some p by simp
    have w2: "snd (refreshSourceArticles b rt2 sid ?w1) = snd (save_new_articles b rt2 usr source ?as2 ?w1')"
      using refresh_plan_Some [of b sid ?w1 usr source rssUrl rt2] Some p plan by simp
    from st have ok: "\<forall>n. db_fault b n = None" by (simp add: steady_def)
    have "map fingerprint ?as2 = map fingerprint ?as1"
      using steady_fetched [OF st, of rt1 rssUrl "Suc (Suc (calls w))"]
        steady_fetched [OF st, of rt2 rssUrl "Suc (Suc (calls ?w1))"]
        fetched_fingerprints_runtime [of b rt2 rssUrl 0 rt1]
      by simp
    then have "fingerprint ` set ?as2 = fingerprint ` set ?as1"
      by (metis set_map)
    also have "\<dots> \<subseteq> set (user_hashes (user_id usr) ?w1)"
      using save_makes_present [OF ok, of ?as1 usr rt1 source ?w0] w1 by simp
    also have "user_hashes (user_id usr) ?w1 = user_hashes (user_id usr) ?w1'"
      by (simp add: user_hashes_calls)
    finally have "fingerprint ` set ?as2 \<subseteq> set (user_hashes (user_id usr) ?w1')" .
    from save_all_present [OF this, of b rt2 source] w2 show ?thesis by simp
  qed
qed

lemma save_same_fingerprint_twice:
  assumes ok: "\<forall>n. db_fault b n = None"
    and same: "title a1 = title a2" "description a1 = description a2"
  shows "articles (snd (save_new_articles b rt usr source [a1, a2] w)) =
           articles w @
             (if fingerprint a1 \<in> set (user_hashes (user_id usr) w) then []
              else [created_row rt usr source a1 (Suc (calls w))])"
proof -
  from same have fp: "fingerprint a2 = fingerprint a1" by (simp add: fingerprint_def)
  show ?thesis
  proof (cases "fingerprint a1 \<in> set (user_hashes (user_id usr) w)")
    case True
    with ok show ?thesis
      by (simp add: save_new_articles_Cons fp user_hashes_tick) (simp add: tick_def)
  next
    case False
    with ok show ?thesis
      by (simp add: save_new_articles_Cons fp user_hashes_add_row created_row_simps)
         (simp add: tick_def add_row_def)
  qed
qed

lemma save_persists_new_candidates:
  assumes ok: "\<forall>n. db_fault b n = None"
  shows "\<exists>rows. articles (snd (save_new_articles b rt usr source as w)) = articles w @ rows \<and>
           map row_key rows = map (candidate_key usr) (new_candidates (user_hashes (user_id usr) w) as)"
proof (induction as arbitrary: w)
  case Nil
  show ?case by simp
next
  case (Cons a as)
  show ?case
  proof (cases rule: save_step [of b rt usr source a as w])
    case (abort w')
    with ok show ?thesis by simp
  next
    case skip
    with Cons [of "tick w"] show ?thesis by (simp add: user_hashes_tick) (simp add: tick_def)
  next
    case create
    let ?r = "created_row rt usr source a (Suc (calls w))"
    from Cons [of "add_row ?r w"] obtain rows where
      rows: "articles (snd (save_new_articles b rt usr source as (add_row ?r w))) = articles (add_row ?r w) @ rows"
        "map row_key rows = map (candidate_key usr) (new_candidates (user_hashes (user_id usr) (add_row ?r w)) as)"
      by blast
    have "articles (snd (save_new_articles b rt usr source (a # as) w)) = articles w @ (?r # rows)"
      using create(2) rows(1) by (simp add: add_row_def)
    moreover have "map row_key (?r # rows) =
        map (candidate_key usr) (new_candidates (user_hashes (user_id usr) w) (a # as))"
      using create(1) rows(2)
      by (simp add: user_hashes_add_row created_row_simps row_key_def candidate_key_def)
    ultimately show ?thesis by blast
  qed
qed

lemma persisted_new_candidates:
  assumes ok: "\<forall>n. db_fault b n = None"
  shows "map row_key (persisted b rt usr source as w) =
           map (candidate_key usr) (new_candidates (user_hashes (user_id usr) w) as)"
  using save_persists_new_candidates [OF ok, of rt usr source as w]
  by (auto simp: persisted_def)

lemma new_candidates_seen:
  "fingerprint a \<in> set seen \<Longrightarrow>
   new_candidates seen (mid @ a # post) = new_candidates seen (mid @ post)"
  by (induction mid arbitrary: seen) simp_all

lemma new_candidates_repeat:
  "fingerprint a2 = fingerprint a1 \<Longrightarrow>
   new_candidates seen (pre @ a1 # mid @ a2 # post) = new_candidates seen (pre @ a1 # mid @ post)"
  by (induction pre arbitrary: seen) (simp_all add: new_candidates_seen)

lemma persisted_repeat:
  assumes ok: "\<forall>n. db_fault b n = None"
    and same: "title a1 = title a2" "description a1 = description a2"
  shows "map row_key (persisted b rt usr source (pre @ a1 # mid @ a2 # post) w) =
         map row_key (persisted b rt usr source (pre @ a1 # mid @ post) w)"
proof -
  from same have "fingerprint a2 = fingerprint a1" by (simp add: fingerprint_def)
  then show ?thesis by (simp add: persisted_new_candidates [OF ok] new_candidates_repeat)
qed

text \<open>
  Claim C1. Ingestion calls run one after the other against the store keep the invariant:
  if no two articles of a user share a fingerprint before, as in the empty store, none do
  after, whatever the backend answers and wherever it throws. On a steady backend a second
  run of ingestion for the same source leaves the articles as the first run left them. And
  with a store that does not throw, of two parsed articles with the same title and
  description anywhere in one batch the second is skipped: the loop adds the rows it would
  add without it; of a batch of just the two it persists the first when its fingerprint is
  new to the user, and nothing otherwise.
\<close>

theorem dedup_invariant:
  "(no_duplicate_fingerprints u w \<longrightarrow> no_duplicate_fingerprints u (refresh_each b cs w)) \<and>
   (steady b \<longrightarrow>
      articles (snd (refreshSourceArticles b rt2 sourceId (snd (refreshSourceArticles b rt1 sourceId w)))) =
      articles (snd (refreshSourceArticles b rt1 sourceId w))) \<and>
   ((\<forall>n. db_fault b n = None) \<and> title a1 = title a2 \<and> description a1 = description a2 \<longrightarrow>
      map row_key (persisted b rt usr source (pre @ a1 # mid @ a2 # post) w) =
        map row_key (persisted b rt usr source (pre @ a1 # mid @ post) w) \<and>
      articles (snd (save_new_articles b rt usr source [a1, a2] w)) =
        articles w @
          (if fingerprint a1 \<in> set (user_hashes (user_id usr) w) then []
           else [created_row rt usr source a1 (Suc (calls w))]))"
  using refresh_each_preserves_no_dup [of u w b cs] refresh_twice [of b rt2 sourceId rt1 w]
    save_same_fingerprint_twice [of b a1 a2 rt usr source w]
    persisted_repeat [of b a1 a2 rt usr source pre mid post w]
  by blast

lemma refresh_world_with_feed:
  "snd (refreshSourceArticles alice_backend example_runtime (js ''s1'') world_with_feed) =
     \<lparr>calls = 5, newsSources = [alice_source],
      articles = [created_row example_runtime alice alice_source example_article 4]\<rparr>"
  by (simp add: refreshSourceArticles_def refreshSourceArticles_try_def call_auth_me_def
      db_newsSources_list_def fetchRSSFeed_def call_extractFromUrl_def parse_two_line_feed
      save_new_articles.simps db_articles_list_def db_articles_create_def
      alice_backend_def world_with_feed_def alice_source_def alice_def tick_def
      created_row_def example_article_def fingerprint_def example_runtime_def or_str_def Let_def js_def
      digit_char_def)

lemma refresh_world_with_feed_again:
  "snd (refreshSourceArticles alice_backend example_runtime (js ''s1'')
     \<lparr>calls = 5, newsSources = [alice_source],
      articles = [created_row example_runtime alice alice_source example_article 4]\<rparr>) =
     \<lparr>calls = 9, newsSources = [alice_source],
      articles = [created_row example_runtime alice alice_source example_article 4]\<rparr>"
  by (simp add: refreshSourceArticles_def refreshSourceArticles_try_def call_auth_me_def
      db_newsSources_list_def fetchRSSFeed_def call_extractFromUrl_def parse_two_line_feed
      save_new_articles.simps db_articles_list_def db_articles_create_def
      alice_backend_def alice_source_def alice_def tick_def
      created_row_def example_article_def fingerprint_def example_runtime_def or_str_def Let_def js_def
      digit_char_def)

theorem dedup_invariant_witness:
  "no_duplicate_fingerprints (js ''alice'') world_with_feed \<and>
   no_duplicate_fingerprints (js ''alice'')
     (refresh_each alice_backend [(example_runtime, js ''s1''), (example_runtime, js ''s1'')] world_with_feed) \<and>
   articles (refresh_each alice_backend [(example_runtime, js ''s1''), (example_runtime, js ''s1'')] world_with_feed)
     = [created_row example_runtime alice alice_source example_article 4] \<and>
   steady alice_backend \<and>
   articles (snd (refreshSourceArticles alice_backend example_runtime (js ''s1'')
       (snd (refreshSourceArticles alice_backend example_runtime (js ''s1'') world_with_feed)))) =
     articles (snd (refreshSourceArticles alice_backend example_runtime (js ''s1'') world_with_feed)) \<and>
   (\<forall>n. db_fault alice_backend n = None) \<and>
   title example_article = title (example_article\<lparr>url := js ''http://x.com/b''\<rparr>) \<and>
   description example_article = description (example_article\<lparr>url := js ''http://x.com/b''\<rparr>) \<and>
   fingerprint example_article \<notin> set (user_hashes (user_id alice) world_with_feed) \<and>
   map row_key (persisted alice_backend example_runtime alice alice_source
       [example_article, example_article\<lparr>url := js ''http://x.com/b''\<rparr>] world_with_feed) =
     map row_key (persisted alice_backend example_runtime alice alice_source
       [example_article] world_with_feed) \<and>
   articles (snd (save_new_articles alice_backend example_runtime alice alice_source
       [example_article, example_article\<lparr>url := js ''http://x.com/b''\<rparr>] world_with_feed)) =
     [created_row example_runtime alice alice_source example_article 1]"
  using dedup_invariant [of "js ''alice''" world_with_feed alice_backend
      "[(example_runtime, js ''s1''), (example_runtime, js ''s1'')]" example_runtime "js ''s1''"
      example_runtime example_article "example_article\<lparr>url := js ''http://x.com/b''\<rparr>"
      example_runtime alice alice_source "[]" "[]" "[]"]
  by (simp add: refresh_world_with_feed refresh_world_with_feed_again)
     (simp add: no_duplicate_fingerprints_def user_hashes_def world_with_feed_def steady_def
       alice_backend_def)

subsection \<open>The order of feed discovery\<close>









end
